theory Spec2Isabelle
  imports Complex_Main
begin

section \<open>Python values\<close>

text \<open>
  A Python \<open>str\<close> is a sequence of Unicode code points and a \<open>bytes\<close> object a sequence
  of byte values; both are lists of naturals here, told apart by the constructor that
  carries them. \<open>S\<close> turns a literal of the source into such a text.
\<close>

type_synonym pystr = "nat list"
type_synonym pybytes = "nat list"

definition S :: "string \<Rightarrow> pystr" where
  "S cs = map of_char cs"

text \<open>
  A Python \<open>float\<close>: the finite doubles are embedded in the reals, next to the two
  infinities and NaN. Only comparisons of floats are modelled this way; they are exact in
  Python, also between an \<open>int\<close> and a \<open>float\<close>.
\<close>

datatype pyfloat = Fin real | PosInf | NegInf | NaN

text \<open>What \<open>isinstance(x, int) or isinstance(x, float)\<close> accepts; \<open>bool\<close> is a subclass of \<open>int\<close>.\<close>

datatype number = NumBool bool | NumInt int | NumFloat pyfloat

text \<open>
  The objects the library handles. \<open>PGeoPoint\<close> carries the two entries of the object's
  \<open>dict\<close> attribute, \<open>PTimeStamp\<close> the \<open>datetime\<close> attribute and \<open>PReference\<close> the
  \<open>document\<close> attribute (a path string, as the class comment says). A \<open>dict\<close> is an
  association list in insertion order, with text keys. Instances of other classes
  (\<open>set\<close>, \<open>complex\<close>, \<open>bytearray\<close>, ...) are not part of the model.
\<close>

datatype pyval =
    PNone
  | PBool bool
  | PInt int
  | PFloat pyfloat
  | PStr pystr
  | PBytes pybytes
  | PGeoPoint number number
  | PTimeStamp pystr
  | PReference pystr
  | PTuple "pyval list"
  | PList "pyval list"
  | PDict "(pystr \<times> pyval) list"

section \<open>Exceptions\<close>

text \<open>
  An exception is a value: its class and, for an \<open>assert\<close> of the source, its message.
  A function that can raise returns \<open>exn + 'a\<close>, with \<open>Inl\<close> for the exception.
  \<open>RequestException\<close> is whatever the \<open>requests\<close> library raises and \<open>CallbackException\<close>
  whatever a caller's callback raises. \<open>Unmodelled\<close> is no exception: it marks the few
  places where the model does not say what Python does (the order \<open>sorted\<close> gives to keys
  that are NaN or no numbers, a reference to no object).
\<close>

datatype exn =
    AssertionError pystr
  | IndexError
  | KeyError
  | TypeError
  | ValueError
  | AttributeError
  | OverflowError
  | UnicodeDecodeError
  | RecursionError
  | RequestException pystr
  | JSONDecodeError
  | CallbackException pystr
  | Unmodelled

section \<open>Builtins on text, numbers and dicts\<close>

text \<open>
  The decimal digits of a natural number, and \<open>str(i)\<close> for an \<open>int\<close>: the digits, after
  a minus sign when negative. The interpreter refuses to convert an \<open>int\<close> of more than
  \<open>sys.get_int_max_str_digits()\<close> digits, 4300 unless changed, and raises \<open>ValueError\<close>;
  the sign does not count. An index of a list is below \<open>sys.maxsize\<close> and a count of
  leaves is reached by adding one leaf at a time, so neither comes near that limit: their
  text is \<open>decimal\<close>.
\<close>

function decimal :: "nat \<Rightarrow> pystr" where
  "decimal n = (if n < 10 then [48 + n] else decimal (n div 10) @ [48 + n mod 10])"
  by pat_completeness auto
termination
  by (relation "measure id") auto

declare decimal.simps [simp del]

definition max_str_digits :: nat where
  "max_str_digits = 4300"

definition str_int :: "int \<Rightarrow> exn + pystr" where
  "str_int i =
     (let ds = decimal (nat \<bar>i\<bar>)
      in if max_str_digits < length ds then Inl ValueError
         else Inr (if i < 0 then 45 # ds else ds))"

text \<open>\<open>d[key] = value\<close> and \<open>d[key]\<close>, \<open>key in d\<close> on a dict in insertion order.\<close>

fun dict_set :: "(pystr \<times> 'v) list \<Rightarrow> pystr \<Rightarrow> 'v \<Rightarrow> (pystr \<times> 'v) list" where
  "dict_set [] k v = [(k, v)]"
| "dict_set ((k', v') # d) k v = (if k' = k then (k, v) # d else (k', v') # dict_set d k v)"

fun dict_get :: "(pystr \<times> 'v) list \<Rightarrow> pystr \<Rightarrow> 'v option" where
  "dict_get [] k = None"
| "dict_get ((k', v') # d) k = (if k' = k then Some v' else dict_get d k)"

definition dict_has :: "(pystr \<times> 'v) list \<Rightarrow> pystr \<Rightarrow> bool" where
  "dict_has d k = (dict_get d k \<noteq> None)"

fun of_number :: "number \<Rightarrow> pyval" where
  "of_number (NumBool b) = PBool b"
| "of_number (NumInt i) = PInt i"
| "of_number (NumFloat f) = PFloat f"

section \<open>UTF-8\<close>

text \<open>
  \<open>bytes.decode('utf-8')\<close>: the strict decoder. It raises \<open>UnicodeDecodeError\<close> on a
  byte that starts no sequence, on a missing or wrong continuation byte, on an overlong
  form, on a surrogate and on a code point above \<open>0x10FFFF\<close>.
\<close>

definition cont :: "nat \<Rightarrow> bool" where
  "cont b = (128 \<le> b \<and> b < 192)"

fun utf8_decode :: "pybytes \<Rightarrow> pystr option" where
  "utf8_decode [] = Some []"
| "utf8_decode (b0 # bs) =
     (if b0 < 128 then map_option ((#) b0) (utf8_decode bs)
      else if 194 \<le> b0 \<and> b0 < 224 then
        (case bs of
           b1 # r \<Rightarrow>
             if cont b1 then map_option ((#) ((b0 - 192) * 64 + (b1 - 128))) (utf8_decode r)
             else None
         | _ \<Rightarrow> None)
      else if 224 \<le> b0 \<and> b0 < 240 then
        (case bs of
           b1 # b2 # r \<Rightarrow>
             (let c = (b0 - 224) * 4096 + (b1 - 128) * 64 + (b2 - 128)
              in if cont b1 \<and> cont b2 \<and> 2048 \<le> c \<and> \<not> (55296 \<le> c \<and> c < 57344)
                 then map_option ((#) c) (utf8_decode r) else None)
         | _ \<Rightarrow> None)
      else if 240 \<le> b0 \<and> b0 < 245 then
        (case bs of
           b1 # b2 # b3 # r \<Rightarrow>
             (let c = (b0 - 240) * 262144 + (b1 - 128) * 4096 + (b2 - 128) * 64 + (b3 - 128)
              in if cont b1 \<and> cont b2 \<and> cont b3 \<and> 65536 \<le> c \<and> c < 1114112
                 then map_option ((#) c) (utf8_decode r) else None)
         | _ \<Rightarrow> None)
      else None)"

text \<open>
  \<open>str.encode(errors='ignore')\<close>, whose default encoding is UTF-8: a surrogate cannot be
  encoded and is left out.
\<close>

definition utf8_char :: "nat \<Rightarrow> pybytes" where
  "utf8_char c =
     (if c < 128 then [c]
      else if c < 2048 then [192 + c div 64, 128 + c mod 64]
      else if 55296 \<le> c \<and> c < 57344 then []
      else if c < 65536 then [224 + c div 4096, 128 + c div 64 mod 64, 128 + c mod 64]
      else [240 + c div 262144, 128 + c div 4096 mod 64, 128 + c div 64 mod 64, 128 + c mod 64])"

definition utf8_encode_ignore :: "pystr \<Rightarrow> pybytes" where
  "utf8_encode_ignore s = concat (map utf8_char s)"

section \<open>Class GeoPoint\<close>

fun as_number :: "pyval \<Rightarrow> number option" where
  "as_number (PBool b) = Some (NumBool b)"
| "as_number (PInt i) = Some (NumInt i)"
| "as_number (PFloat f) = Some (NumFloat f)"
| "as_number _ = None"

fun float_of_number :: "number \<Rightarrow> pyfloat" where
  "float_of_number (NumBool b) = Fin (if b then 1 else 0)"
| "float_of_number (NumInt i) = Fin (of_int i)"
| "float_of_number (NumFloat f) = f"

fun float_less :: "pyfloat \<Rightarrow> pyfloat \<Rightarrow> bool" where
  "float_less NaN _ = False"
| "float_less _ NaN = False"
| "float_less (Fin a) (Fin b) = (a < b)"
| "float_less (Fin a) PosInf = True"
| "float_less (Fin a) NegInf = False"
| "float_less NegInf NegInf = False"
| "float_less NegInf _ = True"
| "float_less PosInf _ = False"

definition num_less :: "number \<Rightarrow> number \<Rightarrow> bool" where
  "num_less a b = float_less (float_of_number a) (float_of_number b)"

text \<open>
  The builtins \<open>max(a, b)\<close> and \<open>min(a, b)\<close> keep the first argument unless the second
  one is strictly greater, respectively strictly smaller.
\<close>

definition py_max :: "number \<Rightarrow> number \<Rightarrow> number" where
  "py_max a b = (if num_less a b then b else a)"

definition py_min :: "number \<Rightarrow> number \<Rightarrow> number" where
  "py_min a b = (if num_less b a then b else a)"

definition GeoPoint :: "pyval \<Rightarrow> pyval \<Rightarrow> pyval" where
  "GeoPoint latitude longitude =
     (let latitude = (case as_number latitude of None \<Rightarrow> NumInt 0 | Some n \<Rightarrow> n);
          longitude = (case as_number longitude of None \<Rightarrow> NumInt 0 | Some n \<Rightarrow> n)
      in PGeoPoint (py_min (py_max latitude (NumInt (- 90))) (NumInt 90))
                   (py_min (py_max longitude (NumInt (- 180))) (NumInt 180)))"

section \<open>Dict translation: to Firestore\<close>

text \<open>
  \<open>Firestore.dict_to_firestore(data, parent_is_list)\<close>. The inner function \<open>map(ref, value)\<close>
  is \<open>map_value\<close>; it reads \<open>parent_is_list\<close> of the enclosing call. The two loops of the
  body are \<open>to_firestore_items\<close> (over the keys of a dict, filling \<open>new_dict\<close>) and
  \<open>to_firestore_elems\<close> (over a list, with the running index \<open>i\<close> and \<open>new_array\<close>).
  A key is a \<open>str\<close> here, so \<open>str(key)\<close> is the key. An \<open>assert False\<close> of the source
  raises; nothing after it runs. Data that is neither a dict nor a list falls off the end
  of \<open>dict_to_firestore\<close>: \<open>None\<close>.

  \<open>depth\<close> is the number of nested calls the interpreter still allows. Each call of
  \<open>dict_to_firestore\<close> and each call of \<open>map\<close> takes one; with none left the call raises
  \<open>RecursionError\<close>. A loop passes to the calls in its body what its own call has left.
  Only the recursion is bounded: the builtins and the accessor \<open>get()\<close> of the three classes
  call nothing further and are not counted.
\<close>

definition type_name :: "pyval \<Rightarrow> pystr" where
  "type_name v = S ''<class '' @ [39] @
     (case v of PTuple _ \<Rightarrow> S ''tuple'' | PList _ \<Rightarrow> S ''list'' | PDict _ \<Rightarrow> S ''dict''
      | PNone \<Rightarrow> S ''NoneType'' | PBool _ \<Rightarrow> S ''bool'' | PInt _ \<Rightarrow> S ''int''
      | PFloat _ \<Rightarrow> S ''float'' | PStr _ \<Rightarrow> S ''str'' | PBytes _ \<Rightarrow> S ''bytes''
      | PGeoPoint _ _ \<Rightarrow> S ''firestore4kivy.firestore4kivy.GeoPoint''
      | PTimeStamp _ \<Rightarrow> S ''firestore4kivy.firestore4kivy.TimeStamp''
      | PReference _ \<Rightarrow> S ''firestore4kivy.firestore4kivy.Reference'')
     @ [39] @ S ''>''"

definition nested_lists_msg :: pystr where
  "nested_lists_msg = S ''ERROR: Nested lists are not available in Firestore.''"

fun dict_to_firestore :: "nat \<Rightarrow> pyval \<Rightarrow> bool \<Rightarrow> exn + pyval"
  and map_value :: "nat \<Rightarrow> bool \<Rightarrow> pystr \<Rightarrow> pyval \<Rightarrow> exn + pyval"
  and to_firestore_items ::
    "nat \<Rightarrow> bool \<Rightarrow> (pystr \<times> pyval) list \<Rightarrow> (pystr \<times> pyval) list \<Rightarrow> exn + (pystr \<times> pyval) list"
  and to_firestore_elems ::
    "nat \<Rightarrow> bool \<Rightarrow> pyval list \<Rightarrow> nat \<Rightarrow> pyval list \<Rightarrow> exn + pyval list"
where
  "dict_to_firestore 0 data parent_is_list = Inl RecursionError"
| "dict_to_firestore (Suc depth) (PDict kvs) parent_is_list =
     map_sum id PDict (to_firestore_items depth parent_is_list kvs [])"
| "dict_to_firestore (Suc depth) (PList xs) parent_is_list =
     map_sum id PList (to_firestore_elems depth parent_is_list xs 0 [])"
| "dict_to_firestore (Suc depth) data parent_is_list = Inr PNone"
| "map_value 0 p ref value = Inl RecursionError"
| "map_value (Suc depth) p ref PNone = Inr (PDict [(S ''nullValue'', PNone)])"
| "map_value (Suc depth) p ref (PBool b) = Inr (PDict [(S ''booleanValue'', PBool b)])"
| "map_value (Suc depth) p ref (PInt i) =
     (case str_int i of
        Inl e \<Rightarrow> Inl e
      | Inr s \<Rightarrow> Inr (PDict [(S ''integerValue'', PStr s)]))"
| "map_value (Suc depth) p ref (PFloat f) = Inr (PDict [(S ''doubleValue'', PFloat f)])"
| "map_value (Suc depth) p ref (PStr s) = Inr (PDict [(S ''stringValue'', PStr s)])"
| "map_value (Suc depth) p ref (PBytes bs) =
     (case utf8_decode bs of
        None \<Rightarrow> Inl UnicodeDecodeError
      | Some s \<Rightarrow> Inr (PDict [(S ''bytesValue'', PStr s)]))"
| "map_value (Suc depth) p ref (PGeoPoint la lo) =
     Inr (PDict [(S ''geoPointValue'',
                  PDict [(S ''latitude'', of_number la), (S ''longitude'', of_number lo)])])"
| "map_value (Suc depth) p ref (PTimeStamp s) = Inr (PDict [(S ''timestampValue'', PStr s)])"
| "map_value (Suc depth) p ref (PReference s) = Inr (PDict [(S ''referenceValue'', PStr s)])"
| "map_value (Suc depth) p ref (PList xs) =
     (if p then Inl (AssertionError nested_lists_msg)
      else (case dict_to_firestore depth (PList xs) True of
              Inl e \<Rightarrow> Inl e
            | Inr a \<Rightarrow> Inr (PDict [(S ''arrayValue'', PDict [(S ''values'', a)])])))"
| "map_value (Suc depth) p ref (PDict kvs) =
     (case dict_to_firestore depth (PDict kvs) False of
        Inl e \<Rightarrow> Inl e
      | Inr d \<Rightarrow> Inr (PDict [(S ''mapValue'', PDict [(S ''fields'', d)])]))"
| "map_value (Suc depth) p ref (PTuple xs) =
     Inl (AssertionError (S ''ERROR: '' @ ref @ S ''value type '' @ type_name (PTuple xs) @
                          S '' is not available in Firestore.''))"
| "to_firestore_items depth p [] new_dict = Inr new_dict"
| "to_firestore_items depth p ((key, value) # rest) new_dict =
     (case map_value depth p (S ''Key '' @ [34] @ key @ [34] @ S '' '') value of
        Inl e \<Rightarrow> Inl e
      | Inr w \<Rightarrow> to_firestore_items depth p rest (dict_set new_dict key w))"
| "to_firestore_elems depth p [] i new_array = Inr new_array"
| "to_firestore_elems depth p (d # rest) i new_array =
     (case map_value depth p (S ''List Index ['' @ decimal i @ S ''] '') d of
        Inl e \<Rightarrow> Inl e
      | Inr w \<Rightarrow> to_firestore_elems depth p rest (Suc i) (new_array @ [w]))"

section \<open>Builtin conversions\<close>

text \<open>
  The conversions \<open>str\<close>, \<open>bool\<close>, \<open>int\<close>, \<open>float\<close> and \<open>str.encode\<close> that
  \<open>dict_from_firestore\<close> applies to a scalar. Some things Python computes are not written
  out here and are taken from a parameter \<open>L\<close>: the text of a float, of a bytes object, of
  a container and of an instance (\<open>repr_of\<close>), the parsing of a numeric text that is not a
  plain decimal integer (\<open>int_of_text\<close>, \<open>float_of_text\<close>), the rounding of an
  \<open>int\<close> to a \<open>float\<close> (\<open>float_of_int\<close>), and the message of an exception that a
  builtin raised (\<open>exn_text\<close>). \<open>str\<close> of an \<open>int\<close> and \<open>int\<close> of a decimal text raise
  \<open>ValueError\<close> above the interpreter's limit of digits.
\<close>

record pylib =
  repr_of :: "pyval \<Rightarrow> exn + pystr"
  int_of_text :: "pystr \<Rightarrow> exn + int"
  float_of_text :: "pystr \<Rightarrow> exn + pyfloat"
  float_of_int :: "int \<Rightarrow> exn + pyfloat"
  exn_text :: "exn \<Rightarrow> pystr"

fun py_str :: "pylib \<Rightarrow> pyval \<Rightarrow> exn + pystr" where
  "py_str L (PStr s) = Inr s"
| "py_str L PNone = Inr (S ''None'')"
| "py_str L (PBool b) = Inr (if b then S ''True'' else S ''False'')"
| "py_str L (PInt i) = str_int i"
| "py_str L v = repr_of L v"

fun py_bool :: "pyval \<Rightarrow> bool" where
  "py_bool PNone = False"
| "py_bool (PBool b) = b"
| "py_bool (PInt i) = (i \<noteq> 0)"
| "py_bool (PFloat f) = (f \<noteq> Fin 0)"
| "py_bool (PStr s) = (s \<noteq> [])"
| "py_bool (PBytes bs) = (bs \<noteq> [])"
| "py_bool (PTuple xs) = (xs \<noteq> [])"
| "py_bool (PList xs) = (xs \<noteq> [])"
| "py_bool (PDict kvs) = (kvs \<noteq> [])"
| "py_bool _ = True"

text \<open>A plain decimal integer: an optional minus sign, then one or more ASCII digits.\<close>

definition is_digit :: "nat \<Rightarrow> bool" where
  "is_digit c = (48 \<le> c \<and> c < 58)"

definition nat_of_digits :: "pystr \<Rightarrow> nat" where
  "nat_of_digits ds = foldl (\<lambda>n c. 10 * n + (c - 48)) 0 ds"

definition int_of_decimal :: "pystr \<Rightarrow> int option" where
  "int_of_decimal s =
     (case s of
        [] \<Rightarrow> None
      | c # ds \<Rightarrow>
          if c = 45 then
            (if ds \<noteq> [] \<and> list_all is_digit ds then Some (- int (nat_of_digits ds)) else None)
          else if list_all is_digit s then Some (int (nat_of_digits s)) else None)"

text \<open>The limit of \<open>int(text)\<close> is on the number of digits of the text, leading zeros included.\<close>

definition int_of_digits :: "pylib \<Rightarrow> pystr \<Rightarrow> exn + int" where
  "int_of_digits L s =
     (case int_of_decimal s of
        Some i \<Rightarrow> if max_str_digits < length (filter is_digit s) then Inl ValueError else Inr i
      | None \<Rightarrow> int_of_text L s)"

fun py_int :: "pylib \<Rightarrow> pyval \<Rightarrow> exn + int" where
  "py_int L (PBool b) = Inr (if b then 1 else 0)"
| "py_int L (PInt i) = Inr i"
| "py_int L (PFloat (Fin r)) = Inr (if 0 \<le> r then \<lfloor>r\<rfloor> else \<lceil>r\<rceil>)"
| "py_int L (PFloat NaN) = Inl ValueError"
| "py_int L (PFloat _) = Inl OverflowError"
| "py_int L (PStr s) = int_of_digits L s"
| "py_int L (PBytes bs) = int_of_digits L bs"
| "py_int L _ = Inl TypeError"

fun py_float :: "pylib \<Rightarrow> pyval \<Rightarrow> exn + pyfloat" where
  "py_float L (PFloat f) = Inr f"
| "py_float L (PBool b) = Inr (Fin (if b then 1 else 0))"
| "py_float L (PInt i) = float_of_int L i"
| "py_float L (PStr s) = float_of_text L s"
| "py_float L (PBytes bs) = float_of_text L bs"
| "py_float L _ = Inl TypeError"

text \<open>\<open>bytes(value.encode(errors='ignore'))\<close>: only a \<open>str\<close> has the method.\<close>

fun py_encode :: "pyval \<Rightarrow> exn + pyval" where
  "py_encode (PStr s) = Inr (PBytes (utf8_encode_ignore s))"
| "py_encode _ = Inl AttributeError"

section \<open>Classes TimeStamp and Reference\<close>

definition TimeStamp :: "pyval \<Rightarrow> pyval" where
  "TimeStamp v = (case v of PStr s \<Rightarrow> PTimeStamp s | _ \<Rightarrow> PTimeStamp (S ''2000-01-01T00:00:00Z''))"

section \<open>Dict translation: from Firestore\<close>

fun is_scalar_value :: "pyval \<Rightarrow> bool" where
  "is_scalar_value (PDict _) = False"
| "is_scalar_value (PList _) = False"
| "is_scalar_value _ = True"

definition is_dict_value :: "pyval \<Rightarrow> pystr list \<Rightarrow> bool" where
  "is_dict_value v keys =
     (case v of PDict d \<Rightarrow> length d = length keys \<and> list_all (dict_has d) keys | _ \<Rightarrow> False)"

lemma dict_get_size: "dict_get d k = Some v \<Longrightarrow> size v < Suc (size_list (size_prod (\<lambda>_. 0) size) d)"
  by (induction d) (auto split: if_splits)

text \<open>
  \<open>Firestore.dict_from_firestore(data)\<close>. The loop over the keys of \<open>data\<close> is
  \<open>from_firestore_items\<close>, with \<open>new_dict\<close> as it stands; a \<open>return\<close> inside the loop
  ends it. A scalar under a key that is no tag is skipped: the chain of \<open>elif\<close> has no
  \<open>else\<close>. The loop over \<open>value['values']\<close> is \<open>from_firestore_elems\<close>; iterating a
  dict, a str or a bytes object yields keys, characters or ints, and the call on each of
  them returns \<open>{}\<close> (\<open>from_firestore_keys\<close>, given their number); a scalar that cannot
  be iterated raises \<open>TypeError\<close>.

  \<open>depth\<close> is the number of nested calls the interpreter still allows: each call of
  \<open>dict_from_firestore\<close> takes one, and with none left the call raises \<open>RecursionError\<close>.
  The helpers \<open>is_scalar_value\<close> and \<open>is_dict_value\<close> and the constructors call nothing
  further and are not counted.
\<close>

definition from_firestore_keys :: "nat \<Rightarrow> nat \<Rightarrow> exn + pyval" where
  "from_firestore_keys depth n =
     (if n = 0 then Inr (PList [])
      else if depth = 0 then Inl RecursionError
      else Inr (PList (replicate n (PDict []))))"

function (sequential) dict_from_firestore :: "nat \<Rightarrow> pylib \<Rightarrow> pyval \<Rightarrow> exn + pyval"
  and from_firestore_items ::
    "nat \<Rightarrow> pylib \<Rightarrow> (pystr \<times> pyval) list \<Rightarrow> (pystr \<times> pyval) list \<Rightarrow> exn + pyval"
  and from_firestore_elems :: "nat \<Rightarrow> pylib \<Rightarrow> pyval list \<Rightarrow> pyval list \<Rightarrow> exn + pyval"
where
  "dict_from_firestore 0 L data = Inl RecursionError"
| "dict_from_firestore (Suc depth) L (PDict kvs) = from_firestore_items depth L kvs []"
| "dict_from_firestore (Suc depth) L data = Inr (PDict [])"
| "from_firestore_items depth L [] new_dict = Inr (PDict new_dict)"
| "from_firestore_items depth L ((key, value) # rest) new_dict =
     (if is_scalar_value value then
        (if key = S ''nullValue'' then Inr PNone
         else if key = S ''stringValue'' then map_sum id PStr (py_str L value)
         else if key = S ''booleanValue'' then Inr (PBool (py_bool value))
         else if key = S ''integerValue'' then map_sum id PInt (py_int L value)
         else if key = S ''doubleValue'' then map_sum id PFloat (py_float L value)
         else if key = S ''bytesValue'' then py_encode value
         else if key = S ''timestampValue'' then
           map_sum id (\<lambda>s. TimeStamp (PStr s)) (py_str L value)
         else if key = S ''referenceValue'' then map_sum id PReference (py_str L value)
         else from_firestore_items depth L rest new_dict)
      else if key = S ''mapValue'' \<and> is_dict_value value [S ''fields''] then
        (case value of
           PDict d \<Rightarrow> (case dict_get d (S ''fields'') of
                         Some payload \<Rightarrow> dict_from_firestore depth L payload
                       | None \<Rightarrow> Inl KeyError)
         | _ \<Rightarrow> Inl TypeError)
      else if key = S ''arrayValue'' \<and> is_dict_value value [S ''values''] then
        (case value of
           PDict d \<Rightarrow> (case dict_get d (S ''values'') of
                         Some (PList vs) \<Rightarrow> from_firestore_elems depth L vs []
                       | Some (PTuple vs) \<Rightarrow> from_firestore_elems depth L vs []
                       | Some (PDict ks) \<Rightarrow> from_firestore_keys depth (length ks)
                       | Some (PStr s) \<Rightarrow> from_firestore_keys depth (length s)
                       | Some (PBytes bs) \<Rightarrow> from_firestore_keys depth (length bs)
                       | Some _ \<Rightarrow> Inl TypeError
                       | None \<Rightarrow> Inl KeyError)
         | _ \<Rightarrow> Inl TypeError)
      else if key = S ''geoPointValue'' \<and> is_dict_value value [S ''latitude'', S ''longitude''] then
        (case value of
           PDict d \<Rightarrow> (case (dict_get d (S ''latitude''), dict_get d (S ''longitude'')) of
                         (Some la, Some lo) \<Rightarrow> Inr (GeoPoint la lo)
                       | _ \<Rightarrow> Inl KeyError)
         | _ \<Rightarrow> Inl TypeError)
      else
        (case dict_from_firestore depth L value of
           Inl e \<Rightarrow> Inl e
         | Inr w \<Rightarrow> from_firestore_items depth L rest (dict_set new_dict key w)))"
| "from_firestore_elems depth L [] array = Inr (PList array)"
| "from_firestore_elems depth L (v # vs) array =
     (case dict_from_firestore depth L v of
        Inl e \<Rightarrow> Inl e
      | Inr w \<Rightarrow> from_firestore_elems depth L vs (array @ [w]))"
  by pat_completeness auto
termination
  apply (relation "measure (\<lambda>x. case x of
      Inl (depth, L, v) \<Rightarrow> size v
    | Inr (Inl (depth, L, kvs, nd)) \<Rightarrow> size_list (size_prod (\<lambda>_. 0) size) kvs
    | Inr (Inr (depth, L, vs, a)) \<Rightarrow> size_list size vs)")
  apply (auto dest: dict_get_size)
  done

section \<open>Native values\<close>



section \<open>The limits of the interpreter\<close>

text \<open>
  \<open>nesting v\<close> is the number of lists and dicts around the innermost value of \<open>v\<close>, and
  \<open>leaves v\<close> the number of values in \<open>v\<close> that are neither a list nor a dict: the count that
  \<open>dict_size\<close> returns when the recursion limit lets it finish.
\<close>

fun max_list :: "nat list \<Rightarrow> nat" where
  "max_list [] = 0"
| "max_list (n # ns) = max n (max_list ns)"

fun nesting :: "pyval \<Rightarrow> nat" where
  "nesting (PList xs) = Suc (max_list (map nesting xs))"
| "nesting (PDict kvs) = Suc (max_list (map (\<lambda>kv. nesting (snd kv)) kvs))"
| "nesting _ = 0"

fun leaves :: "pyval \<Rightarrow> nat" where
  "leaves (PList xs) = sum_list (map leaves xs)"
| "leaves (PDict kvs) = sum_list (map (\<lambda>kv. leaves (snd kv)) kvs)"
| "leaves _ = 1"

text \<open>
  \<open>printable n\<close>: \<open>str(n)\<close> does not raise. \<open>within_digits v\<close>: the absolute value of
  every \<open>int\<close> in \<open>v\<close> is printable.
\<close>

definition printable :: "nat \<Rightarrow> bool" where
  "printable n = (length (decimal n) \<le> max_str_digits)"

fun within_digits :: "pyval \<Rightarrow> bool" where
  "within_digits (PInt i) = printable (nat \<bar>i\<bar>)"
| "within_digits (PList xs) = list_all within_digits xs"
| "within_digits (PDict kvs) = list_all (\<lambda>kv. within_digits (snd kv)) kvs"
| "within_digits _ = True"


text \<open>The library parameter used where a concrete one is needed; none of its answers is used.\<close>

definition lib0 :: pylib where
  "lib0 = \<lparr>repr_of = (\<lambda>_. Inr []), int_of_text = (\<lambda>_. Inl ValueError),
           float_of_text = (\<lambda>_. Inl ValueError), float_of_int = (\<lambda>_. Inl OverflowError),
           exn_text = (\<lambda>_. [])\<rparr>"

text \<open>A value inside \<open>n\<close> dicts of one key each.\<close>

fun nested :: "nat \<Rightarrow> pyval \<Rightarrow> pyval" where
  "nested 0 v = v"
| "nested (Suc n) v = PDict [(S ''d'', nested n v)]"

section \<open>What clamping means\<close>

text \<open>
  \<open>in_bounds b r\<close>: the number \<open>r\<close> lies in \<open>[-b, b]\<close>, by Python's own \<open>\<le>\<close>, which is
  false whenever NaN is compared. \<open>nearest_bound b x\<close>: the bound that \<open>x\<close> exceeds,
  or \<open>x\<close> itself.
\<close>

definition float_le :: "pyfloat \<Rightarrow> pyfloat \<Rightarrow> bool" where
  "float_le a b = (float_less a b \<or> (a = b \<and> a \<noteq> NaN))"

definition in_bounds :: "int \<Rightarrow> number \<Rightarrow> bool" where
  "in_bounds b r = (float_le (Fin (of_int (- b))) (float_of_number r) \<and>
                    float_le (float_of_number r) (Fin (of_int b)))"

definition nearest_bound :: "int \<Rightarrow> number \<Rightarrow> number" where
  "nearest_bound b x =
     (if num_less (NumInt b) x then NumInt b
      else if num_less x (NumInt (- b)) then NumInt (- b) else x)"

section \<open>Mutable objects\<close>

text \<open>
  \<open>dict_replace\<close> and \<open>dict_pop\<close> change \<open>existing\<close> in place, and \<open>dict_replace\<close> stores
  objects of the replace overlay into it, so the same list or dict can be reached from both.
  Where that matters the objects live in a store: a \<open>val\<close> is an immutable value, a tuple
  of values, or a reference to a list or dict of the heap; an address is a position in the
  heap, and a new object is put at its end.
\<close>

type_synonym addr = nat

datatype val =
    VNone
  | VBool bool
  | VInt int
  | VFloat pyfloat
  | VStr pystr
  | VBytes pybytes
  | VGeoPoint number number
  | VTimeStamp pystr
  | VReference pystr
  | VTuple "val list"
  | VRef addr

datatype obj = ODict "(pystr \<times> val) list" | OList "val list"

type_synonym heap = "obj list"

text \<open>The object a value refers to; \<open>None\<close> for a value that is no list and no dict.\<close>

fun deref :: "heap \<Rightarrow> val \<Rightarrow> obj option" where
  "deref h (VRef a) = (if a < length h then Some (h ! a) else None)"
| "deref h _ = None"

text \<open>
  \<open>alloc\<close> builds the objects of a value that is given as a tree, children first: what
  \<open>dict_from_firestore\<close> does when it creates its result. \<open>reify\<close> reads the tree back
  that a traversal of the objects sees; \<open>depth\<close> bounds the recursion, as the interpreter's
  recursion limit does, and a traversal that exceeds it raises \<open>RecursionError\<close>.
\<close>

fun alloc :: "heap \<Rightarrow> pyval \<Rightarrow> heap \<times> val"
  and alloc_elems :: "heap \<Rightarrow> pyval list \<Rightarrow> heap \<times> val list"
  and alloc_items :: "heap \<Rightarrow> (pystr \<times> pyval) list \<Rightarrow> heap \<times> (pystr \<times> val) list"
where
  "alloc h PNone = (h, VNone)"
| "alloc h (PBool b) = (h, VBool b)"
| "alloc h (PInt i) = (h, VInt i)"
| "alloc h (PFloat f) = (h, VFloat f)"
| "alloc h (PStr s) = (h, VStr s)"
| "alloc h (PBytes bs) = (h, VBytes bs)"
| "alloc h (PGeoPoint la lo) = (h, VGeoPoint la lo)"
| "alloc h (PTimeStamp s) = (h, VTimeStamp s)"
| "alloc h (PReference s) = (h, VReference s)"
| "alloc h (PTuple xs) = (case alloc_elems h xs of (h', vs) \<Rightarrow> (h', VTuple vs))"
| "alloc h (PList xs) = (case alloc_elems h xs of (h', vs) \<Rightarrow> (h' @ [OList vs], VRef (length h')))"
| "alloc h (PDict kvs) = (case alloc_items h kvs of (h', d) \<Rightarrow> (h' @ [ODict d], VRef (length h')))"
| "alloc_elems h [] = (h, [])"
| "alloc_elems h (x # xs) =
     (case alloc h x of (h', v) \<Rightarrow> (case alloc_elems h' xs of (h'', vs) \<Rightarrow> (h'', v # vs)))"
| "alloc_items h [] = (h, [])"
| "alloc_items h ((k, x) # kvs) =
     (case alloc h x of (h', v) \<Rightarrow> (case alloc_items h' kvs of (h'', d) \<Rightarrow> (h'', (k, v) # d)))"

fun reify :: "nat \<Rightarrow> heap \<Rightarrow> val \<Rightarrow> exn + pyval"
  and reify_elems :: "nat \<Rightarrow> heap \<Rightarrow> val list \<Rightarrow> exn + pyval list"
  and reify_items :: "nat \<Rightarrow> heap \<Rightarrow> (pystr \<times> val) list \<Rightarrow> exn + (pystr \<times> pyval) list"
where
  "reify depth h VNone = Inr PNone"
| "reify depth h (VBool b) = Inr (PBool b)"
| "reify depth h (VInt i) = Inr (PInt i)"
| "reify depth h (VFloat f) = Inr (PFloat f)"
| "reify depth h (VStr s) = Inr (PStr s)"
| "reify depth h (VBytes bs) = Inr (PBytes bs)"
| "reify depth h (VGeoPoint la lo) = Inr (PGeoPoint la lo)"
| "reify depth h (VTimeStamp s) = Inr (PTimeStamp s)"
| "reify depth h (VReference s) = Inr (PReference s)"
| "reify depth h (VTuple vs) = map_sum id PTuple (reify_elems depth h vs)"
| "reify 0 h (VRef a) = Inl RecursionError"
| "reify (Suc depth) h (VRef a) =
     (case deref h (VRef a) of
        Some (OList vs) \<Rightarrow> map_sum id PList (reify_elems depth h vs)
      | Some (ODict d) \<Rightarrow> map_sum id PDict (reify_items depth h d)
      | None \<Rightarrow> Inl Unmodelled)"
| "reify_elems depth h [] = Inr []"
| "reify_elems depth h (v # vs) =
     (case reify depth h v of
        Inl e \<Rightarrow> Inl e
      | Inr x \<Rightarrow> (case reify_elems depth h vs of Inl e \<Rightarrow> Inl e | Inr xs \<Rightarrow> Inr (x # xs)))"
| "reify_items depth h [] = Inr []"
| "reify_items depth h ((k, v) # d) =
     (case reify depth h v of
        Inl e \<Rightarrow> Inl e
      | Inr x \<Rightarrow> (case reify_items depth h d of Inl e \<Rightarrow> Inl e | Inr xs \<Rightarrow> Inr ((k, x) # xs)))"

section \<open>List and dict primitives\<close>

text \<open>
  An index as Python takes it: an \<open>int\<close> (or \<open>bool\<close>) addresses a position, counted
  from the end when negative; anything else is a \<open>TypeError\<close>. \<open>index < len(xs)\<close> and
  \<open>index == len(xs)\<close> also accept a float; \<open><\<close> raises \<open>TypeError\<close> on what is no number.
\<close>

fun as_number_val :: "val \<Rightarrow> number option" where
  "as_number_val (VBool b) = Some (NumBool b)"
| "as_number_val (VInt i) = Some (NumInt i)"
| "as_number_val (VFloat f) = Some (NumFloat f)"
| "as_number_val _ = None"

fun position :: "number option \<Rightarrow> nat \<Rightarrow> exn + nat" where
  "position (Some (NumInt i)) n =
     (if 0 \<le> i \<and> i < int n then Inr (nat i)
      else if i < 0 \<and> - int n \<le> i then Inr (nat (int n + i))
      else Inl IndexError)"
| "position (Some (NumBool b)) n = (if (if b then 1 else 0) < n then Inr (if b then 1 else 0) else Inl IndexError)"
| "position _ n = Inl TypeError"

fun less_len :: "number option \<Rightarrow> nat \<Rightarrow> exn + bool" where
  "less_len (Some x) n = Inr (num_less x (NumInt (int n)))"
| "less_len None n = Inl TypeError"

fun equals_len :: "number option \<Rightarrow> nat \<Rightarrow> bool" where
  "equals_len (Some x) n = (float_of_number x = Fin (of_nat n))"
| "equals_len None n = False"

definition list_pop :: "'a list \<Rightarrow> nat \<Rightarrow> 'a list" where
  "list_pop xs i = take i xs @ drop (Suc i) xs"

fun dict_del :: "(pystr \<times> 'v) list \<Rightarrow> pystr \<Rightarrow> (pystr \<times> 'v) list" where
  "dict_del [] k = []"
| "dict_del ((k', v') # d) k = (if k' = k then d else (k', v') # dict_del d k)"

section \<open>Dict update: dict_replace\<close>

text \<open>
  \<open>Firestore.dict_replace(existing, replace)\<close>. Both arguments are values of the heap; the
  result is the new heap and the flag \<open>tuples\<close>. The loop of the dict branch is
  \<open>replace_items\<close>: it runs over the items of \<open>replace\<close> as they were when the loop began,
  reads \<open>existing\<close> (the dict at address \<open>a\<close>) from the current heap, and drops what the
  recursive calls return unless the overlay value is a list. The loop of the list branch is
  \<open>replace_elems\<close>, which carries \<open>tuples\<close>. \<open>existing[key] = value\<close> stores \<open>value\<close> itself:
  a reference stays a reference to the overlay's object. \<open>depth\<close> is the recursion depth
  left.
\<close>

fun replace_elems :: "heap \<Rightarrow> addr \<Rightarrow> val list \<Rightarrow> bool \<Rightarrow> exn + heap \<times> bool" where
  "replace_elems h a [] tuples = Inr (h, tuples)"
| "replace_elems h a (VTuple ts # rest) tuples =
     (case ts of
        index # value # _ \<Rightarrow>
          (case h ! a of
             OList existing \<Rightarrow>
               (case less_len (as_number_val index) (length existing) of
                  Inl e \<Rightarrow> Inl e
                | Inr True \<Rightarrow>
                    (case position (as_number_val index) (length existing) of
                       Inl e \<Rightarrow> Inl e
                     | Inr i \<Rightarrow> replace_elems (h[a := OList (existing[i := value])]) a rest True)
                | Inr False \<Rightarrow>
                    if equals_len (as_number_val index) (length existing)
                    then replace_elems (h[a := OList (existing @ [value])]) a rest True
                    else replace_elems h a rest True)
           | ODict _ \<Rightarrow> Inl Unmodelled)
      | _ \<Rightarrow> Inl IndexError)"
| "replace_elems h a (ele # rest) tuples = replace_elems h a rest tuples"

fun dict_replace :: "nat \<Rightarrow> heap \<Rightarrow> val \<Rightarrow> val \<Rightarrow> exn + heap \<times> bool"
  and replace_items :: "nat \<Rightarrow> heap \<Rightarrow> addr \<Rightarrow> (pystr \<times> val) list \<Rightarrow> exn + heap"
where
  "dict_replace 0 h existing replace = Inl RecursionError"
| "dict_replace (Suc depth) h existing replace =
     (case (deref h replace, existing, deref h existing) of
        (Some (ODict r), VRef a, Some (ODict _)) \<Rightarrow>
          (case replace_items depth h a r of Inl e \<Rightarrow> Inl e | Inr h' \<Rightarrow> Inr (h', False))
      | (Some (OList r), VRef a, Some (OList _)) \<Rightarrow> replace_elems h a r False
      | _ \<Rightarrow> Inr (h, False))"
| "replace_items depth h a [] = Inr h"
| "replace_items depth h a ((key, value) # rest) =
     (case h ! a of
        ODict existing \<Rightarrow>
          (case dict_get existing key of
             Some old \<Rightarrow>
               (case deref h value of
                  Some (ODict _) \<Rightarrow>
                    (case dict_replace depth h old value of
                       Inl e \<Rightarrow> Inl e
                     | Inr (h', _) \<Rightarrow> replace_items depth h' a rest)
                | Some (OList _) \<Rightarrow>
                    (case dict_replace depth h old value of
                       Inl e \<Rightarrow> Inl e
                     | Inr (h', tuples) \<Rightarrow>
                         if \<not> tuples then
                           (case h' ! a of
                              ODict existing' \<Rightarrow>
                                replace_items depth (h'[a := ODict (dict_set existing' key value)]) a rest
                            | OList _ \<Rightarrow> Inl Unmodelled)
                         else replace_items depth h' a rest)
                | None \<Rightarrow> replace_items depth (h[a := ODict (dict_set existing key value)]) a rest)
           | None \<Rightarrow> replace_items depth (h[a := ODict (dict_set existing key value)]) a rest)
      | OList _ \<Rightarrow> Inl Unmodelled)"

section \<open>Dict update: dict_pop\<close>

text \<open>
  \<open>sorted(removes, key = lambda x: x[0], reverse = True)\<close> on a list of tuples, given by
  their elements. The keys are computed first: an empty tuple raises \<open>IndexError\<close>. A list
  of at most one tuple is compared with nothing. Keys that are numbers and not NaN are put
  in descending order, equal keys staying in their order (the sort is stable, also with
  \<open>reverse\<close>). For any other keys the model gives no order.
\<close>

fun is_tuple :: "pyval \<Rightarrow> bool" where
  "is_tuple (PTuple _) = True"
| "is_tuple _ = False"

fun tuple_elems :: "pyval \<Rightarrow> pyval list" where
  "tuple_elems (PTuple ts) = ts"
| "tuple_elems _ = []"

fun is_container :: "pyval \<Rightarrow> bool" where
  "is_container (PDict _) = True"
| "is_container (PList _) = True"
| "is_container _ = False"

fun sort_key :: "pyval list \<Rightarrow> number option" where
  "sort_key [] = None"
| "sort_key (index # _) =
     (case as_number index of
        Some x \<Rightarrow> if float_of_number x = NaN then None else Some x
      | None \<Rightarrow> None)"

fun insert_desc :: "number \<times> 'a \<Rightarrow> (number \<times> 'a) list \<Rightarrow> (number \<times> 'a) list" where
  "insert_desc x [] = [x]"
| "insert_desc x (y # ys) = (if num_less (fst y) (fst x) then x # y # ys else y # insert_desc x ys)"

definition sorted_desc :: "pyval list list \<Rightarrow> exn + pyval list list" where
  "sorted_desc tss =
     (if list_ex (\<lambda>ts. ts = []) tss then Inl IndexError
      else if length tss \<le> 1 then Inr tss
      else (case those (map sort_key tss) of
              None \<Rightarrow> Inl Unmodelled
            | Some ks \<Rightarrow> Inr (map snd (foldl (\<lambda>acc x. insert_desc x acc) [] (zip ks tss)))))"

lemma size_insert_desc: "size_list f (insert_desc x ys) = size_list f (x # ys)"
  by (induction ys) auto

lemma size_foldl_insert:
  "size_list f (foldl (\<lambda>acc x. insert_desc x acc) acc xs) = size_list f acc + size_list f xs"
  by (induction xs arbitrary: acc) (auto simp: size_insert_desc)

lemma size_map_snd_zip:
  "length ks = length tss \<Longrightarrow> size_list (\<lambda>p. f (snd p)) (zip ks tss) = size_list f tss"
  by (induction ks tss rule: list_induct2) auto

lemma those_length: "those xs = Some ys \<Longrightarrow> length ys = length xs"
  by (induction xs arbitrary: ys) (auto split: option.splits)

lemma size_sorted_desc:
  "sorted_desc tss = Inr ds \<Longrightarrow> size_list f ds = size_list f tss"
proof -
  assume a: "sorted_desc tss = Inr ds"
  show ?thesis
  proof (cases "length tss \<le> 1")
    case True
    with a show ?thesis by (auto simp: sorted_desc_def split: if_splits)
  next
    case False
    with a obtain ks where ks: "those (map sort_key tss) = Some ks"
      and ds: "ds = map snd (foldl (\<lambda>acc x. insert_desc x acc) [] (zip ks tss))"
      by (auto simp: sorted_desc_def split: if_splits option.splits)
    have len: "length ks = length tss" using those_length[OF ks] by simp
    have "size_list f ds = size_list (\<lambda>p. f (snd p)) (foldl (\<lambda>acc x. insert_desc x acc) [] (zip ks tss))"
      unfolding ds by (simp add: size_list_map comp_def)
    also have "\<dots> = size_list (\<lambda>p. f (snd p)) (zip ks tss)" by (simp add: size_foldl_insert)
    also have "\<dots> = size_list f tss" by (rule size_map_snd_zip[OF len])
    finally show ?thesis .
  qed
qed

lemma size_tuple_elems: "size_list (size_list size \<circ> tuple_elems) rs < Suc (size_list size rs)"
proof (induction rs)
  case Nil
  then show ?case by simp
next
  case (Cons r rs)
  then show ?case by (cases r) auto
qed

text \<open>
  \<open>Firestore.dict_pop(existing, removes)\<close>. \<open>existing\<close> is a value of the heap. \<open>removes\<close> is
  only read, and no part of it is ever stored, so it is taken as a tree; this leaves out a
  caller who puts one and the same object into both overlays. The result is the new heap
  and the object returned: \<open>existing\<close>, or the new empty list of the early \<open>return []\<close>.
  \<open>pop_items\<close> is the loop of the dict branch; \<open>pop_elems\<close> is the loop over
  \<open>descending\<close>.
\<close>

function (sequential) dict_pop :: "heap \<Rightarrow> val \<Rightarrow> pyval \<Rightarrow> exn + heap \<times> val"
  and pop_items :: "heap \<Rightarrow> addr \<Rightarrow> (pystr \<times> pyval) list \<Rightarrow> exn + heap"
  and pop_elems :: "heap \<Rightarrow> addr \<Rightarrow> pyval list list \<Rightarrow> exn + heap"
where
  "dict_pop h existing (PDict removes) =
     (case (existing, deref h existing) of
        (VRef a, Some (ODict _)) \<Rightarrow>
          (case pop_items h a removes of Inl e \<Rightarrow> Inl e | Inr h' \<Rightarrow> Inr (h', existing))
      | _ \<Rightarrow> Inr (h, existing))"
| "dict_pop h existing (PList removes) =
     (case (existing, deref h existing) of
        (VRef a, Some (OList _)) \<Rightarrow>
          if list_ex (\<lambda>ele. \<not> is_tuple ele) removes then Inr (h @ [OList []], VRef (length h))
          else (case sorted_desc (map tuple_elems removes) of
                  Inl e \<Rightarrow> Inl e
                | Inr descending \<Rightarrow>
                    (case pop_elems h a descending of
                       Inl e \<Rightarrow> Inl e
                     | Inr h' \<Rightarrow> Inr (h', existing)))
      | _ \<Rightarrow> Inr (h, existing))"
| "dict_pop h existing removes = Inr (h, existing)"
| "pop_items h a [] = Inr h"
| "pop_items h a ((key, value) # rest) =
     (case h ! a of
        ODict existing \<Rightarrow>
          (case dict_get existing key of
             Some old \<Rightarrow>
               if py_bool value \<and> is_container value then
                 (case dict_pop h old value of
                    Inl e \<Rightarrow> Inl e
                  | Inr (h', _) \<Rightarrow> pop_items h' a rest)
               else pop_items (h[a := ODict (dict_del existing key)]) a rest
           | None \<Rightarrow> pop_items h a rest)
      | OList _ \<Rightarrow> Inl Unmodelled)"
| "pop_elems h a [] = Inr h"
| "pop_elems h a (ele # rest) =
     (case ele of
        index # value # _ \<Rightarrow>
          (case h ! a of
             OList existing \<Rightarrow>
               if py_bool value \<and> is_container value then
                 (case position (as_number index) (length existing) of
                    Inl e \<Rightarrow> Inl e
                  | Inr i \<Rightarrow>
                      (case dict_pop h (existing ! i) value of
                         Inl e \<Rightarrow> Inl e
                       | Inr (h', _) \<Rightarrow> pop_elems h' a rest))
               else
                 (case less_len (as_number index) (length existing) of
                    Inl e \<Rightarrow> Inl e
                  | Inr True \<Rightarrow>
                      (case position (as_number index) (length existing) of
                         Inl e \<Rightarrow> Inl e
                       | Inr i \<Rightarrow> pop_elems (h[a := OList (list_pop existing i)]) a rest)
                  | Inr False \<Rightarrow> pop_elems h a rest)
           | ODict _ \<Rightarrow> Inl Unmodelled)
      | _ \<Rightarrow> Inl IndexError)"
  by pat_completeness auto
termination
  apply (relation "measure (\<lambda>x. case x of
      Inl (h, e, r) \<Rightarrow> size r
    | Inr (Inl (h, a, kvs)) \<Rightarrow> size_list (size_prod (\<lambda>_. 0) size) kvs
    | Inr (Inr (h, a, tss)) \<Rightarrow> size_list (size_list size) tss)")
  apply (auto simp: size_sorted_desc size_tuple_elems)
  done


section \<open>Overlays on which dict_replace returns\<close>





section \<open>The Firestore object and the transport\<close>

text \<open>
  The object after \<open>__init__\<close> and \<open>enable_database\<close>: \<open>local_id\<close> and \<open>id_token\<close> are texts,
  empty when \<open>enable_database\<close> was given no usable \<open>auth\<close>.
\<close>

record firestore =
  path :: pystr
  REST :: pystr
  local_id :: pystr
  id_token :: pystr

definition Firestore :: "pystr \<Rightarrow> firestore" where
  "Firestore project_id =
     (let path = S ''projects/'' @ project_id @ S ''/databases/(default)/documents/''
      in \<lparr>path = path, REST = S ''https://firestore.googleapis.com/v1/'' @ path,
          local_id = [], id_token = []\<rparr>)"

text \<open>
  What the \<open>requests\<close> library is to the code: a request goes out and either an exception
  comes back or a response, of which the code reads \<open>status_code\<close> and \<open>json()\<close> (which may
  raise). The body of a POST is kept as the object handed to \<open>json.dumps\<close>; for what the
  encoder returns \<open>json.dumps\<close> does not raise. The network is a function on a state \<open>'w\<close>
  of its own. Every request sent and every \<open>sleep\<close> is recorded in the trace.
\<close>

datatype request =
    GET pystr "(pystr \<times> pystr) list"
  | POST pystr "(pystr \<times> pystr) list" pyval
  | DELETE pystr "(pystr \<times> pystr) list"

record response =
  status_code :: int
  json :: "exn + pyval"

datatype event = Sleep real | Sent request

record 'w state =
  heap :: heap
  trace :: "event list"
  net :: 'w

type_synonym 'w transport = "'w \<Rightarrow> request \<Rightarrow> (exn + response) \<times> 'w"

definition send :: "'w transport \<Rightarrow> 'w state \<Rightarrow> request \<Rightarrow> (exn + response) \<times> 'w state" where
  "send T st rq =
     (case T (net st) rq of (r, w) \<Rightarrow> (r, st\<lparr>trace := trace st @ [Sent rq], net := w\<rparr>))"

definition sleep :: "'w state \<Rightarrow> real \<Rightarrow> 'w state" where
  "sleep st seconds = st\<lparr>trace := trace st @ [Sleep seconds]\<rparr>"

section \<open>Utilities\<close>

definition ebind :: "exn + 'a \<Rightarrow> ('a \<Rightarrow> exn + 'b) \<Rightarrow> exn + 'b" where
  "ebind x f = (case x of Inl e \<Rightarrow> Inl e | Inr a \<Rightarrow> f a)"

definition build_headers :: "firestore \<Rightarrow> exn + (pystr \<times> pystr) list" where
  "build_headers self =
     (if id_token self = [] then Inl (AssertionError (S ''Database not enabled.''))
      else Inr [(S ''content-type'', S ''application/json; charset=UTF-8''),
                (S ''Authorization'', S ''Bearer '' @ id_token self)])"

text \<open>
  \<open>Firestore.dict_size(data)\<close>, with \<open>count\<close> carried through the two loops. The function
  calls itself on every value, also on one that is no container, and each call takes one
  of the \<open>depth\<close> nested calls the interpreter still allows.
\<close>

fun dict_size :: "nat \<Rightarrow> pyval \<Rightarrow> exn + nat"
  and size_items :: "nat \<Rightarrow> (pystr \<times> pyval) list \<Rightarrow> nat \<Rightarrow> exn + nat"
  and size_elems :: "nat \<Rightarrow> pyval list \<Rightarrow> nat \<Rightarrow> exn + nat"
where
  "dict_size 0 data = Inl RecursionError"
| "dict_size (Suc depth) (PDict kvs) = size_items depth kvs 0"
| "dict_size (Suc depth) (PList xs) = size_elems depth xs 0"
| "dict_size (Suc depth) data = Inr 1"
| "size_items depth [] count = Inr count"
| "size_items depth ((key, value) # rest) count =
     (case dict_size depth value of
        Inl e \<Rightarrow> Inl e
      | Inr n \<Rightarrow> size_items depth rest (count + n))"
| "size_elems depth [] count = Inr count"
| "size_elems depth (ele # rest) count =
     (case dict_size depth ele of
        Inl e \<Rightarrow> Inl e
      | Inr n \<Rightarrow> size_elems depth rest (count + n))"

text \<open>\<open>str(e)\<close> of a caught exception: the message where the model has it.\<close>

definition str_exn :: "pylib \<Rightarrow> exn \<Rightarrow> pystr" where
  "str_exn L e =
     (case e of AssertionError m \<Rightarrow> m | RequestException m \<Rightarrow> m | CallbackException m \<Rightarrow> m
      | _ \<Rightarrow> exn_text L e)"

text \<open>
  \<open>x in c\<close> for a text \<open>x\<close>, \<open>c[key]\<close> for a text key and \<open>c[0]\<close>, on whatever \<open>json()\<close>
  returned: membership in a dict is over its keys, in a list over its elements, in a str
  it is the substring test; a number, a bool or \<open>None\<close> raises \<open>TypeError\<close>.
\<close>

fun starts_with :: "pystr \<Rightarrow> pystr \<Rightarrow> bool" where
  "starts_with s [] = True"
| "starts_with [] (x # xs) = False"
| "starts_with (c # s) (x # xs) = (c = x \<and> starts_with s xs)"

fun contains_text :: "pystr \<Rightarrow> pystr \<Rightarrow> bool" where
  "contains_text [] x = (x = [])"
| "contains_text (c # s) x = (starts_with (c # s) x \<or> contains_text s x)"

fun py_in :: "pystr \<Rightarrow> pyval \<Rightarrow> exn + bool" where
  "py_in x (PDict d) = Inr (dict_has d x)"
| "py_in x (PList xs) = Inr (PStr x \<in> set xs)"
| "py_in x (PTuple xs) = Inr (PStr x \<in> set xs)"
| "py_in x (PStr s) = Inr (contains_text s x)"
| "py_in x _ = Inl TypeError"

fun py_item :: "pyval \<Rightarrow> pystr \<Rightarrow> exn + pyval" where
  "py_item (PDict d) k = (case dict_get d k of Some v \<Rightarrow> Inr v | None \<Rightarrow> Inl KeyError)"
| "py_item _ k = Inl TypeError"

fun py_item0 :: "pyval \<Rightarrow> exn + pyval" where
  "py_item0 (PList xs) = (case xs of [] \<Rightarrow> Inl IndexError | x # _ \<Rightarrow> Inr x)"
| "py_item0 (PTuple xs) = (case xs of [] \<Rightarrow> Inl IndexError | x # _ \<Rightarrow> Inr x)"
| "py_item0 (PStr s) = (case s of [] \<Rightarrow> Inl IndexError | c # _ \<Rightarrow> Inr (PStr [c]))"
| "py_item0 (PBytes bs) = (case bs of [] \<Rightarrow> Inl IndexError | b # _ \<Rightarrow> Inr (PInt (int b)))"
| "py_item0 (PDict d) = Inl KeyError"
| "py_item0 _ = Inl TypeError"

text \<open>
  The last two branches that \<open>parse_result\<close> and \<open>parse_result_update\<close> share: the message of
  the response's \<open>error\<close>, or the text of the whole response. \<open>'ERROR: ' + m\<close> raises
  \<open>TypeError\<close> unless \<open>m\<close> is a str.
\<close>

definition error_message :: "pylib \<Rightarrow> pyval \<Rightarrow> exn + pystr" where
  "error_message L r =
     ebind (py_in (S ''error'') r) (\<lambda>has_error.
       ebind (if has_error
              then ebind (py_item r (S ''error'')) (\<lambda>er. py_in (S ''message'') er)
              else Inr False) (\<lambda>has_message.
         if has_message then
           ebind (py_item r (S ''error'')) (\<lambda>er.
             ebind (py_item er (S ''message'')) (\<lambda>m.
               case m of PStr t \<Rightarrow> Inr (S ''ERROR: '' @ t) | _ \<Rightarrow> Inl TypeError))
         else ebind (py_str L r) (\<lambda>t. Inr (S ''ERROR:'' @ t))))"

definition parse_result :: "nat \<Rightarrow> pylib \<Rightarrow> pyval \<Rightarrow> exn + bool \<times> pyval \<times> pyval" where
  "parse_result depth L r =
     ebind (py_in (S ''fields'') r) (\<lambda>has_fields.
       if has_fields then
         ebind (py_item r (S ''fields'')) (\<lambda>f.
           ebind (dict_from_firestore depth L f) (\<lambda>data.
             ebind (py_in (S ''updateTime'') r) (\<lambda>has_time.
               if has_time
               then ebind (py_item r (S ''updateTime'')) (\<lambda>update_time. Inr (True, data, update_time))
               else Inr (True, data, PStr []))))
       else ebind (error_message L r) (\<lambda>m. Inr (False, PStr m, PStr [])))"

definition parse_result_update :: "pylib \<Rightarrow> pyval \<Rightarrow> val \<Rightarrow> exn + bool \<times> val \<times> pyval" where
  "parse_result_update L r data =
     ebind (py_in (S ''writeResults'') r) (\<lambda>has_results.
       ebind (if has_results
              then ebind (py_item r (S ''writeResults'')) (\<lambda>wr.
                     ebind (py_item0 wr) (\<lambda>w0. py_in (S ''updateTime'') w0))
              else Inr False) (\<lambda>has_time.
         if has_time then
           ebind (py_item r (S ''writeResults'')) (\<lambda>wr.
             ebind (py_item0 wr) (\<lambda>w0.
               ebind (py_item w0 (S ''updateTime'')) (\<lambda>update_time.
                 Inr (True, data, update_time))))
         else ebind (error_message L r) (\<lambda>m. Inr (False, VStr m, PStr []))))"

section \<open>REST operations\<close>

text \<open>
  What every \<open>except Exception as e\<close> of the operations returns, and the message of the
  size check. Every operation takes \<open>depth\<close>, the
  number of nested calls the interpreter still allows, and hands it to each traversal it
  starts.
\<close>

definition error_text :: "pylib \<Rightarrow> exn \<Rightarrow> pystr" where
  "error_text L e = S ''ERROR: '' @ str_exn L e"

definition caught :: "pylib \<Rightarrow> exn + bool \<times> pyval \<times> pyval \<Rightarrow> bool \<times> pyval \<times> pyval" where
  "caught L x = (case x of Inl e \<Rightarrow> (False, PStr (error_text L e), PStr []) | Inr r \<Rightarrow> r)"

definition too_many :: "nat \<Rightarrow> pystr" where
  "too_many sz = S ''ERROR: '' @ S ''Dict contains too many elements ('' @ decimal sz @
                   S '') for Firestore.''"

text \<open>
  \<open>Firestore.create(collection, document, data)\<close>. An empty \<open>collection\<close> or \<open>document\<close> is
  replaced by \<open>local_id\<close>. \<open>dict_size\<close> is called before the \<open>try\<close>: an exception there
  leaves the call (\<open>Inl\<close>). The arguments of \<open>requests.post\<close>
  are evaluated inside the \<open>try\<close>, the encoding first and \<open>build_headers()\<close> after it.
\<close>

definition create ::
  "firestore \<Rightarrow> pylib \<Rightarrow> 'w transport \<Rightarrow> nat \<Rightarrow> 'w state \<Rightarrow> pystr \<Rightarrow> pystr \<Rightarrow> pyval
   \<Rightarrow> 'w state \<times> (exn + bool \<times> pyval \<times> pyval)" where
  "create self L T depth st collection document data =
     (let collection = (if collection = [] then local_id self else collection);
          document = (if document = [] then local_id self else document)
      in case dict_size depth data of
           Inl e \<Rightarrow> (st, Inl e)
         | Inr sz \<Rightarrow>
             if sz > 19990 then (st, Inr (False, PStr (too_many sz), PStr []))
             else
               (let request_path = REST self @ collection @ S ''?documentId='' @ document
                in case dict_to_firestore depth data False of
                     Inl e \<Rightarrow> (st, Inr (caught L (Inl e)))
                   | Inr fs \<Rightarrow>
                       (case build_headers self of
                          Inl e \<Rightarrow> (st, Inr (caught L (Inl e)))
                        | Inr hdrs \<Rightarrow>
                            (case send T st (POST request_path hdrs (PDict [(S ''fields'', fs)])) of
                               (Inl e, st') \<Rightarrow> (st', Inr (caught L (Inl e)))
                             | (Inr r, st') \<Rightarrow>
                                 (st', Inr (caught L (ebind (json r) (parse_result depth L))))))))"

text \<open>\<open>Firestore.read(collection, document)\<close>.\<close>

definition read ::
  "firestore \<Rightarrow> pylib \<Rightarrow> 'w transport \<Rightarrow> nat \<Rightarrow> 'w state \<Rightarrow> pystr \<Rightarrow> pystr
   \<Rightarrow> 'w state \<times> (bool \<times> pyval \<times> pyval)" where
  "read self L T depth st collection document =
     (let collection = (if collection = [] then local_id self else collection);
          document = (if document = [] then local_id self else document);
          request_path = REST self @ collection @ S ''/'' @ document
      in case build_headers self of
           Inl e \<Rightarrow> (st, caught L (Inl e))
         | Inr hdrs \<Rightarrow>
             (case send T st (GET request_path hdrs) of
                (Inl e, st') \<Rightarrow> (st', caught L (Inl e))
              | (Inr r, st') \<Rightarrow> (st', caught L (ebind (json r) (parse_result depth L)))))"

text \<open>\<open>Firestore.delete(collection, document)\<close>.\<close>

definition delete ::
  "firestore \<Rightarrow> pylib \<Rightarrow> 'w transport \<Rightarrow> nat \<Rightarrow> 'w state \<Rightarrow> pystr \<Rightarrow> pystr
   \<Rightarrow> 'w state \<times> (bool \<times> pyval \<times> pyval)" where
  "delete self L T depth st collection document =
     (let collection = (if collection = [] then local_id self else collection);
          document = (if document = [] then local_id self else document);
          request_path = REST self @ collection @ S ''/'' @ document
      in case build_headers self of
           Inl e \<Rightarrow> (st, caught L (Inl e))
         | Inr hdrs \<Rightarrow>
             (case send T st (DELETE request_path hdrs) of
                (Inl e, st') \<Rightarrow> (st', caught L (Inl e))
              | (Inr r, st') \<Rightarrow>
                  if status_code r = 200 then (st', (True, PDict [], PStr []))
                  else (st', caught L (ebind (json r) (parse_result depth L)))))"

section \<open>Update\<close>

text \<open>
  One pass of the body of \<open>while True\<close> in \<open>Firestore.update\<close>, from \<open>self.read\<close> on. It
  ends the call (\<open>Return\<close>, with the tuple returned or the exception that escapes) or goes
  to the next pass (\<open>Continue\<close>, the \<open>continue\<close> under \<open>FAILED_PRECONDITION\<close>).

  \<open>read\<close> creates the objects of the document (\<open>alloc\<close>); \<open>dict_replace\<close>, \<open>dict_pop\<close> and
  the callback work on them, outside any \<open>try\<close>. \<open>dict_size\<close> and \<open>dict_to_firestore\<close> then
  read the objects: \<open>reify\<close> gives them the tree they traverse, at the place of
  \<open>dict_size\<close> and with the same allowance. \<open>dict_size\<close> is still outside the \<open>try\<close>; from
  \<open>dict_to_firestore\<close> on everything is inside it.
\<close>

datatype 'a step = Continue | Return 'a

type_synonym callback = "heap \<Rightarrow> val \<Rightarrow> exn + heap"

definition failed :: "pylib \<Rightarrow> exn \<Rightarrow> (exn + bool \<times> val \<times> pyval) step" where
  "failed L e = Return (Inr (False, VStr (error_text L e), PStr []))"

definition commit ::
  "firestore \<Rightarrow> pylib \<Rightarrow> 'w transport \<Rightarrow> nat \<Rightarrow> pystr \<Rightarrow> pystr \<Rightarrow> 'w state \<Rightarrow> val \<Rightarrow> pyval
   \<Rightarrow> pyval \<Rightarrow> 'w state \<times> (exn + bool \<times> val \<times> pyval) step" where
  "commit self L T depth collection document st existing doc update_time =
     (let request_path = butlast (REST self) @ S '':commit''
      in case dict_to_firestore depth doc False of
           Inl e \<Rightarrow> (st, failed L e)
         | Inr fs \<Rightarrow>
             (let fs_data = PDict [(S ''fields'', fs),
                                   (S ''name'', PStr (path self @ collection @ S ''/'' @ document))];
                  commit = PDict [(S ''writes'',
                             PList [PDict [(S ''update'', fs_data),
                                           (S ''currentDocument'',
                                            PDict [(S ''updateTime'', update_time)])]])]
              in case build_headers self of
                   Inl e \<Rightarrow> (st, failed L e)
                 | Inr hdrs \<Rightarrow>
                     (case send T st (POST request_path hdrs commit) of
                        (Inl e, st') \<Rightarrow> (st', failed L e)
                      | (Inr r, st') \<Rightarrow>
                          (st',
                           case json r of
                             Inl e \<Rightarrow> failed L e
                           | Inr t \<Rightarrow>
                               (case (if status_code r = 400
                                      then ebind (py_in (S ''error'') t) (\<lambda>has_error.
                                             if has_error
                                             then ebind (py_item t (S ''error'')) (\<lambda>er.
                                                    ebind (py_in (S ''status'') er) (\<lambda>has_status.
                                                      if has_status
                                                      then ebind (py_item er (S ''status'')) (\<lambda>s.
                                                             Inr (s = PStr (S ''FAILED_PRECONDITION'')))
                                                      else Inr False))
                                             else Inr False)
                                      else Inr False) of
                                  Inl e \<Rightarrow> failed L e
                                | Inr True \<Rightarrow> Continue
                                | Inr False \<Rightarrow>
                                    (case parse_result_update L t existing of
                                       Inl e \<Rightarrow> failed L e
                                     | Inr res \<Rightarrow> Return (Inr res)))))))"

definition attempt_body ::
  "firestore \<Rightarrow> pylib \<Rightarrow> 'w transport \<Rightarrow> callback option \<Rightarrow> nat \<Rightarrow> pystr \<Rightarrow> pystr
   \<Rightarrow> val \<Rightarrow> pyval \<Rightarrow> 'w state \<Rightarrow> 'w state \<times> (exn + bool \<times> val \<times> pyval) step" where
  "attempt_body self L T callback depth collection document replace delete' st =
     (case read self L T depth st collection document of
        (st1, (success, data, update_time)) \<Rightarrow>
          (case alloc (heap st1) data of
             (h1, existing) \<Rightarrow>
               if success then
                 (case dict_replace depth h1 existing replace of
                    Inl e \<Rightarrow> (st1\<lparr>heap := h1\<rparr>, Return (Inl e))
                  | Inr (h2, _) \<Rightarrow>
                      (case dict_pop h2 existing delete' of
                         Inl e \<Rightarrow> (st1\<lparr>heap := h2\<rparr>, Return (Inl e))
                       | Inr (h3, _) \<Rightarrow>
                           (case (case callback of None \<Rightarrow> Inr h3 | Some cb \<Rightarrow> cb h3 existing) of
                              Inl e \<Rightarrow> (st1\<lparr>heap := h3\<rparr>, Return (Inl e))
                            | Inr h4 \<Rightarrow>
                                (case reify depth h4 existing of
                                   Inl e \<Rightarrow> (st1\<lparr>heap := h4\<rparr>, Return (Inl e))
                                 | Inr doc \<Rightarrow>
                                     (case dict_size depth doc of
                                        Inl e \<Rightarrow> (st1\<lparr>heap := h4\<rparr>, Return (Inl e))
                                      | Inr sz \<Rightarrow>
                                          if sz > 19990
                                          then (st1\<lparr>heap := h4\<rparr>,
                                                Return (Inr (False, VStr (too_many sz), PStr [])))
                                          else commit self L T depth collection document
                                                 (st1\<lparr>heap := h4\<rparr>) existing doc update_time)))))
               else (st1\<lparr>heap := h1\<rparr>, Return (Inr (False, existing, update_time)))))"

text \<open>
  \<open>Firestore.update(collection, document, replace, delete, callback)\<close> (the
  parameter \<open>delete\<close> is written \<open>delete'\<close>): the loop, with
  \<open>backoff\<close> and \<open>attempt\<close> as they are at the top of a pass. The loop is not bounded by
  its form, so not returning is the value \<open>None\<close>.
\<close>

definition timed_out :: "pystr \<Rightarrow> pystr \<Rightarrow> pystr" where
  "timed_out collection document =
     S ''ERROR: Update of '' @ collection @ S ''/'' @ document @ S '' timed out.''"

partial_function (option) update_loop ::
  "firestore \<Rightarrow> pylib \<Rightarrow> 'w transport \<Rightarrow> callback option \<Rightarrow> nat \<Rightarrow> pystr \<Rightarrow> pystr
   \<Rightarrow> val \<Rightarrow> pyval \<Rightarrow> 'w state \<Rightarrow> real \<Rightarrow> int
   \<Rightarrow> ('w state \<times> (exn + bool \<times> val \<times> pyval)) option" where
  "update_loop self L T callback depth collection document replace delete' st backoff attempt =
     (let st = sleep st backoff;
          attempt = attempt + 1;
          backoff = (if attempt = 5 then 1 else if attempt > 5 then backoff * 1.5 else backoff)
      in if backoff \<ge> 60
         then Some (st, Inr (False, VStr (timed_out collection document), PStr []))
         else (case attempt_body self L T callback depth collection document replace delete' st of
                 (st', Continue) \<Rightarrow>
                   update_loop self L T callback depth collection document replace delete'
                     st' backoff attempt
               | (st', Return r) \<Rightarrow> Some (st', r)))"

definition update ::
  "firestore \<Rightarrow> pylib \<Rightarrow> 'w transport \<Rightarrow> callback option \<Rightarrow> nat \<Rightarrow> 'w state \<Rightarrow> pystr \<Rightarrow> pystr
   \<Rightarrow> val \<Rightarrow> pyval \<Rightarrow> ('w state \<times> (exn + bool \<times> val \<times> pyval)) option" where
  "update self L T callback depth st collection document replace delete' =
     (let collection = (if collection = [] then local_id self else collection);
          document = (if document = [] then local_id self else document)
      in update_loop self L T callback depth collection document replace delete' st 0 0)"

section \<open>Scenarios\<close>

text \<open>
  A Firestore object with credentials, and networks for concrete runs. Each network
  answers a GET with a document and its \<open>updateTime\<close>; its state counts the POSTs it has
  seen. \<open>contended n\<close> refuses the first \<open>n\<close> commits with \<open>FAILED_PRECONDITION\<close> and accepts
  the next.
\<close>

definition fs0 :: firestore where
  "fs0 = (Firestore (S ''p''))\<lparr>local_id := S ''u'', id_token := S ''tok''\<rparr>"

definition precondition_failed :: response where
  "precondition_failed =
     \<lparr>status_code = 400,
      json = Inr (PDict [(S ''error'', PDict [(S ''code'', PInt 400),
                                             (S ''message'', PStr (S ''stale'')),
                                             (S ''status'', PStr (S ''FAILED_PRECONDITION''))])])\<rparr>"

definition written :: response where
  "written =
     \<lparr>status_code = 200,
      json = Inr (PDict [(S ''writeResults'', PList [PDict [(S ''updateTime'', PStr (S ''t2''))]])])\<rparr>"

definition contended :: "nat \<Rightarrow> pyval \<Rightarrow> nat transport" where
  "contended n doc w rq =
     (case rq of
        POST _ _ _ \<Rightarrow> (Inr (if w < n then precondition_failed else written), Suc w)
      | _ \<Rightarrow> (Inr \<lparr>status_code = 200,
                   json = Inr (PDict [(S ''fields'', doc), (S ''updateTime'', PStr (S ''t1''))])\<rparr>,
              w))"

definition start :: "heap \<Rightarrow> nat state" where
  "start h = \<lparr>heap = h, trace = [], net = 0\<rparr>"

text \<open>The headers, the GET and the commit of an empty document that \<open>fs0\<close> sends.\<close>

definition headers0 :: "(pystr \<times> pystr) list" where
  "headers0 = [(S ''content-type'', S ''application/json; charset=UTF-8''),
               (S ''Authorization'', S ''Bearer '' @ S ''tok'')]"

definition get_doc :: request where
  "get_doc = GET (REST fs0 @ S ''u'' @ S ''/'' @ S ''doc'')
                 headers0"

definition post_empty :: request where
  "post_empty = POST (butlast (REST fs0) @ S '':commit'')
                 headers0
                 (PDict [(S ''writes'',
                     PList [PDict [(S ''update'', PDict [(S ''fields'', PDict []),
                                      (S ''name'', PStr (path fs0 @ S ''u'' @ S ''/'' @ S ''doc''))]),
                                   (S ''currentDocument'',
                                    PDict [(S ''updateTime'', PStr (S ''t1''))])]])])"

section \<open>The waits of a run\<close>

text \<open>
  \<open>sleeps\<close> are the arguments of the calls of \<open>sleep\<close> in a trace, in order. \<open>schedule n\<close>
  is the wait before attempt \<open>n\<close>, counted from 1: none before the first five attempts,
  one second before the sixth, and half as much again before each one after it.
\<close>

definition sleeps :: "event list \<Rightarrow> real list" where
  "sleeps tr = concat (map (\<lambda>ev. case ev of Sleep x \<Rightarrow> [x] | Sent _ \<Rightarrow> []) tr)"

definition requests :: "event list \<Rightarrow> request list" where
  "requests tr = concat (map (\<lambda>ev. case ev of Sleep _ \<Rightarrow> [] | Sent rq \<Rightarrow> [rq]) tr)"

definition schedule :: "nat \<Rightarrow> real" where
  "schedule n = (if n \<le> 5 then 0 else (3 / 2) ^ (n - 6))"

section \<open>The merge of one attempt\<close>

text \<open>
  The document that one attempt of \<open>update\<close> builds from a snapshot: the snapshot's objects
  are created in the heap, \<open>dict_replace\<close> and \<open>dict_pop\<close> are applied, and the result is
  read back.
\<close>

definition merged :: "nat \<Rightarrow> heap \<Rightarrow> pyval \<Rightarrow> val \<Rightarrow> pyval \<Rightarrow> exn + pyval" where
  "merged depth h snapshot replace removes =
     (case alloc h snapshot of
        (h1, existing) \<Rightarrow>
          ebind (dict_replace depth h1 existing replace) (\<lambda>(h2, _).
            ebind (dict_pop h2 existing removes) (\<lambda>(h3, _). reify depth h3 existing)))"

text \<open>\<open>many n x\<close> is the list of \<open>n\<close> times \<open>x\<close>, for documents of a given size.\<close>

definition many :: "nat \<Rightarrow> 'a \<Rightarrow> 'a list" where
  "many n x = replicate n x"

section \<open>Facts about the builtins\<close>







section \<open>The codec\<close>

lemma S_eq_iff [simp]: "S a = S b \<longleftrightarrow> a = b"
  unfolding S_def by (simp add: inj_map_eq_map inj_of_char)





subsection \<open>Decimal digits\<close>

lemma decimal_digits:
  "decimal n \<noteq> [] \<and> list_all is_digit (decimal n) \<and> nat_of_digits (decimal n) = n"
proof (induction n rule: decimal.induct)
  case (1 n)
  show ?case
  proof (cases "n < 10")
    case True
    then have "decimal n = [48 + n]" by (subst decimal.simps) simp
    moreover have "is_digit (48 + n)" using True by (simp add: is_digit_def)
    ultimately show ?thesis by (simp add: nat_of_digits_def)
  next
    case False
    with 1 have IH: "decimal (n div 10) \<noteq> []" "list_all is_digit (decimal (n div 10))"
      "nat_of_digits (decimal (n div 10)) = n div 10" by simp_all
    have eq: "decimal n = decimal (n div 10) @ [48 + n mod 10]"
      using False by (subst decimal.simps) simp
    have d: "is_digit (48 + n mod 10)" by (simp add: is_digit_def)
    show ?thesis unfolding eq using IH d
      by (simp add: nat_of_digits_def)
  qed
qed



lemma decimal_length_mono: "m \<le> n \<Longrightarrow> length (decimal m) \<le> length (decimal n)"
proof (induction n arbitrary: m rule: decimal.induct)
  case (1 n)
  show ?case
  proof (cases "m < 10")
    case True
    then have "decimal m = [48 + m]" by (subst decimal.simps) simp
    moreover have "decimal n \<noteq> []" using decimal_digits by blast
    ultimately show ?thesis by (cases "decimal n") simp_all
  next
    case False
    then have n10: "\<not> n < 10" using 1(2) by simp
    have "m div 10 \<le> n div 10" using 1(2) by (rule div_le_mono)
    then have "length (decimal (m div 10)) \<le> length (decimal (n div 10))"
      using 1(1) n10 by simp
    moreover have "decimal m = decimal (m div 10) @ [48 + m mod 10]"
      using False by (subst decimal.simps) simp
    moreover have "decimal n = decimal (n div 10) @ [48 + n mod 10]"
      using n10 by (subst decimal.simps) simp
    ultimately show ?thesis by simp
  qed
qed


lemma printable_mono: "m \<le> n \<Longrightarrow> printable n \<Longrightarrow> printable m"
  unfolding printable_def using decimal_length_mono[of m n] by simp





lemma as_number_of_number [simp]: "as_number (of_number n) = Some n"
  by (cases n) auto

subsection \<open>Nesting\<close>

lemma max_list_mem: "n \<in> set ns \<Longrightarrow> n \<le> max_list ns"
  by (induction ns) auto

lemma nesting_elem: "x \<in> set xs \<Longrightarrow> Suc (nesting x) \<le> nesting (PList xs)"
  using max_list_mem[of "nesting x" "map nesting xs"] by simp

lemma nesting_item: "(k, x) \<in> set kvs \<Longrightarrow> Suc (nesting x) \<le> nesting (PDict kvs)"
  using max_list_mem[of "nesting x" "map (\<lambda>kv. nesting (snd kv)) kvs"] by force

subsection \<open>Round trip\<close>




subsection \<open>Rejection\<close>












subsection \<open>Beyond the recursion limit\<close>



lemma nested_dict_size: "d \<le> n \<Longrightarrow> dict_size d (nested n v) = Inl RecursionError"
proof (induction n arbitrary: d)
  case 0
  then show ?case by simp
next
  case (Suc n)
  show ?case
  proof (cases d)
    case 0
    then show ?thesis by simp
  next
    case (Suc d1)
    then have "dict_size d1 (nested n v) = Inl RecursionError" using Suc.prems Suc.IH by simp
    then show ?thesis using Suc by simp
  qed
qed


lemma nested_within_digits: "within_digits v \<Longrightarrow> within_digits (nested n v)"
  by (induction n) simp_all

lemma nested_leaves: "leaves (nested n v) = leaves v"
  by (induction n) simp_all

subsection \<open>The count of leaves\<close>

lemma size_elems_leaves:
  "(\<And>x. x \<in> set xs \<Longrightarrow> dict_size d x = Inr (leaves x)) \<Longrightarrow>
     size_elems d xs c = Inr (c + sum_list (map leaves xs))"
  by (induction xs arbitrary: c) simp_all

lemma size_items_leaves:
  "(\<And>k x. (k, x) \<in> set kvs \<Longrightarrow> dict_size d x = Inr (leaves x)) \<Longrightarrow>
     size_items d kvs c = Inr (c + sum_list (map (\<lambda>kv. leaves (snd kv)) kvs))"
proof (induction kvs arbitrary: c)
  case Nil
  then show ?case by simp
next
  case (Cons kv kvs)
  obtain k x where kv: "kv = (k, x)" by (cases kv)
  have "dict_size d x = Inr (leaves x)" using Cons.prems[of k x] kv by simp
  moreover have "size_items d kvs c' = Inr (c' + sum_list (map (\<lambda>kv. leaves (snd kv)) kvs))" for c'
    using Cons.IH[of c'] Cons.prems by (meson list.set_intros(2))
  ultimately show ?case by (simp add: kv)
qed

lemma dict_size_leaves: "nesting v \<le> a \<Longrightarrow> dict_size (Suc a) v = Inr (leaves v)"
proof (induction v arbitrary: a)
  case (PList xs)
  then obtain a1 where a: "a = Suc a1" by (cases a) auto
  have "dict_size (Suc a1) x = Inr (leaves x)" if x: "x \<in> set xs" for x
  proof -
    have "Suc (nesting x) \<le> nesting (PList xs)" using x by (rule nesting_elem)
    then have "nesting x \<le> a1" using PList.prems a by simp
    then show ?thesis using PList.IH[OF x] by blast
  qed
  then have "size_elems (Suc a1) xs 0 = Inr (0 + sum_list (map leaves xs))"
    by (rule size_elems_leaves)
  then show ?case by (simp add: a)
next
  case (PDict kvs)
  then obtain a1 where a: "a = Suc a1" by (cases a) auto
  have "dict_size (Suc a1) x = Inr (leaves x)" if x: "(k, x) \<in> set kvs" for k x
  proof -
    have "Suc (nesting x) \<le> nesting (PDict kvs)" using x by (rule nesting_item)
    then have "nesting x \<le> a1" using PDict.prems a by simp
    moreover have "x \<in> Basic_BNFs.snds (k, x)" by simp
    ultimately show ?thesis using PDict.IH[OF x] by blast
  qed
  then have "size_items (Suc a1) kvs 0 = Inr (0 + sum_list (map (\<lambda>kv. leaves (snd kv)) kvs))"
    by (rule size_items_leaves)
  then show ?case by (simp add: a)
qed simp_all

subsection \<open>A numeral as the allowance\<close>

lemma dict_to_firestore_numeral:
  "dict_to_firestore (numeral k) data p =
     (case data of
        PDict kvs \<Rightarrow> map_sum id PDict (to_firestore_items (pred_numeral k) p kvs [])
      | PList xs \<Rightarrow> map_sum id PList (to_firestore_elems (pred_numeral k) p xs 0 [])
      | _ \<Rightarrow> Inr PNone)"
  by (cases data) (simp_all add: numeral_eq_Suc)

lemma map_value_numeral:
  "map_value (numeral k) p ref v =
     (case v of
        PNone \<Rightarrow> Inr (PDict [(S ''nullValue'', PNone)])
      | PBool b \<Rightarrow> Inr (PDict [(S ''booleanValue'', PBool b)])
      | PInt i \<Rightarrow>
          (case str_int i of
             Inl e \<Rightarrow> Inl e
           | Inr s \<Rightarrow> Inr (PDict [(S ''integerValue'', PStr s)]))
      | PFloat f \<Rightarrow> Inr (PDict [(S ''doubleValue'', PFloat f)])
      | PStr s \<Rightarrow> Inr (PDict [(S ''stringValue'', PStr s)])
      | PBytes bs \<Rightarrow>
          (case utf8_decode bs of
             None \<Rightarrow> Inl UnicodeDecodeError
           | Some s \<Rightarrow> Inr (PDict [(S ''bytesValue'', PStr s)]))
      | PGeoPoint la lo \<Rightarrow>
          Inr (PDict [(S ''geoPointValue'',
                       PDict [(S ''latitude'', of_number la), (S ''longitude'', of_number lo)])])
      | PTimeStamp s \<Rightarrow> Inr (PDict [(S ''timestampValue'', PStr s)])
      | PReference s \<Rightarrow> Inr (PDict [(S ''referenceValue'', PStr s)])
      | PTuple xs \<Rightarrow>
          Inl (AssertionError (S ''ERROR: '' @ ref @ S ''value type '' @ type_name (PTuple xs) @
                               S '' is not available in Firestore.''))
      | PList xs \<Rightarrow>
          (if p then Inl (AssertionError nested_lists_msg)
           else (case dict_to_firestore (pred_numeral k) (PList xs) True of
                   Inl e \<Rightarrow> Inl e
                 | Inr a \<Rightarrow> Inr (PDict [(S ''arrayValue'', PDict [(S ''values'', a)])])))
      | PDict kvs \<Rightarrow>
          (case dict_to_firestore (pred_numeral k) (PDict kvs) False of
             Inl e \<Rightarrow> Inl e
           | Inr d \<Rightarrow> Inr (PDict [(S ''mapValue'', PDict [(S ''fields'', d)])])))"
  by (cases v) (simp_all add: numeral_eq_Suc)

lemma dict_from_firestore_numeral:
  "dict_from_firestore (numeral k) L data =
     (case data of
        PDict kvs \<Rightarrow> from_firestore_items (pred_numeral k) L kvs []
      | _ \<Rightarrow> Inr (PDict []))"
  by (cases data) (simp_all add: numeral_eq_Suc)

lemma dict_size_numeral:
  "dict_size (numeral k) data =
     (case data of
        PDict kvs \<Rightarrow> size_items (pred_numeral k) kvs 0
      | PList xs \<Rightarrow> size_elems (pred_numeral k) xs 0
      | _ \<Rightarrow> Inr 1)"
  by (cases data) (simp_all add: numeral_eq_Suc)

lemma decimal_small: "n < 10 \<Longrightarrow> decimal n = [48 + n]"
  by (subst decimal.simps) simp


lemma str_int_small: "0 \<le> i \<Longrightarrow> i < 10 \<Longrightarrow> str_int i = Inr [48 + nat i]"
  by (simp add: str_int_def Let_def decimal_small max_str_digits_def)

section \<open>Facts about the operations\<close>

lemma sleeps_append [simp]: "sleeps (a @ b) = sleeps a @ sleeps b"
  by (simp add: sleeps_def)

lemma requests_append [simp]: "requests (a @ b) = requests a @ requests b"
  by (simp add: requests_def)

lemma sleeps_simps [simp]: "sleeps [] = []" "sleeps (Sleep x # tr) = x # sleeps tr"
  "sleeps (Sent rq # tr) = sleeps tr"
  by (simp_all add: sleeps_def)

lemma requests_simps [simp]: "requests [] = []" "requests (Sleep x # tr) = requests tr"
  "requests (Sent rq # tr) = rq # requests tr"
  by (simp_all add: requests_def)

lemma send_trace: "send T st rq = (r, st') \<Longrightarrow> trace st' = trace st @ [Sent rq] \<and> heap st' = heap st"
  by (auto simp: send_def split: prod.splits)

lemma read_trace:
  "read self L T depth st c d = (st', res) \<Longrightarrow>
     heap st' = heap st \<and>
     (trace st' = trace st \<or> (\<exists>url hs. trace st' = trace st @ [Sent (GET url hs)]))"
  by (auto simp: read_def Let_def split: sum.splits prod.splits dest!: send_trace)

lemma commit_trace:
  "commit self L T depth c d st ex doc ut = (st', res) \<Longrightarrow>
     trace st' = trace st \<or> (\<exists>url hs body. trace st' = trace st @ [Sent (POST url hs body)])"
  by (auto simp: commit_def Let_def split: sum.splits prod.splits dest!: send_trace)

lemma attempt_sleeps:
  "attempt_body self L T cb depth c d rep del st = (st', res) \<Longrightarrow>
     sleeps (trace st') = sleeps (trace st)"
  unfolding attempt_body_def
  by (auto simp: Let_def split: sum.splits prod.splits if_splits option.splits
           dest!: read_trace commit_trace)

lemma schedule_step:
  "(if int n + 1 = 5 then 1 else if int n + 1 > 5 then schedule (Suc n) * 1.5 else schedule (Suc n))
     = schedule (Suc (Suc n))"
proof -
  consider "n < 4" | "n = 4" | "n > 4" by linarith
  then show ?thesis
  proof cases
    case 1
    then show ?thesis by (simp add: schedule_def)
  next
    case 2
    then show ?thesis by (simp add: schedule_def)
  next
    case 3
    then obtain m where m: "n = 5 + m" by (metis less_imp_add_positive add.commute Suc_eq_plus1 add_Suc_right less_eq_Suc_le le_Suc_ex numeral_eq_Suc pred_numeral_simps(3) eval_nat_numeral(3))
    show ?thesis unfolding m by (simp add: schedule_def)
  qed
qed

lemma schedule_small: "n \<le> 16 \<Longrightarrow> schedule n < 60"
proof -
  assume n: "n \<le> 16"
  show ?thesis
  proof (cases "n \<le> 5")
    case True
    then show ?thesis by (simp add: schedule_def)
  next
    case False
    then have "(3 / 2 :: real) ^ (n - 6) \<le> (3 / 2) ^ 10"
      using n by (intro power_increasing) auto
    also have "\<dots> < 60" by (simp add: power_divide)
    finally show ?thesis using False by (simp add: schedule_def)
  qed
qed

lemma schedule_17: "schedule 17 \<ge> 60"
  by (simp add: schedule_def power_divide)

lemma loop_step:
  "update_loop self L T cb depth c d rep del st (schedule (Suc n)) (int n) =
     (if schedule (Suc (Suc n)) \<ge> 60
      then Some (sleep st (schedule (Suc n)), Inr (False, VStr (timed_out c d), PStr []))
      else (case attempt_body self L T cb depth c d rep del (sleep st (schedule (Suc n))) of
              (st', Continue) \<Rightarrow>
                update_loop self L T cb depth c d rep del st' (schedule (Suc (Suc n))) (int (Suc n))
            | (st', Return r) \<Rightarrow> Some (st', r)))"
proof -
  have i: "int (Suc n) = int n + 1" by simp
  show ?thesis
    by (subst update_loop.simps) (simp only: Let_def schedule_step i)
qed

lemma loop_schedule:
  assumes "n \<le> 15"
  shows "\<exists>st' r k. update_loop self L T cb depth c d rep del st (schedule (Suc n)) (int n) = Some (st', r) \<and>
           Suc n \<le> k \<and> k \<le> 16 \<and>
           sleeps (trace st') = sleeps (trace st) @ map schedule [Suc n..<Suc k] \<and>
           (k = 16 \<longrightarrow> r = Inr (False, VStr (timed_out c d), PStr []) \<and>
                        (\<exists>tr. trace st' = tr @ [Sleep (schedule 16)]))"
  using assms
proof (induction "15 - n" arbitrary: n st)
  case 0
  then have n: "n = 15" by simp
  have "update_loop self L T cb depth c d rep del st (schedule (Suc n)) (int n)
        = Some (sleep st (schedule 16), Inr (False, VStr (timed_out c d), PStr []))"
    by (subst loop_step) (use schedule_17 in \<open>simp add: n\<close>)
  then show ?case
    by (intro exI[of _ "sleep st (schedule 16)"] exI[of _ "Inr (False, VStr (timed_out c d), PStr [])"]
        exI[of _ 16]) (simp add: n sleep_def)
next
  case (Suc m)
  then have n: "n \<le> 14" by simp
  let ?st1 = "sleep st (schedule (Suc n))"
  have b: "\<not> schedule (Suc (Suc n)) \<ge> 60"
    using schedule_small[of "Suc (Suc n)"] n by simp
  obtain st2 res where ab: "attempt_body self L T cb depth c d rep del ?st1 = (st2, res)"
    by (cases "attempt_body self L T cb depth c d rep del ?st1")
  have sl: "sleeps (trace st2) = sleeps (trace st) @ [schedule (Suc n)]"
    using attempt_sleeps[OF ab] by (simp add: sleep_def)
  show ?case
  proof (cases res)
    case Continue
    have eq: "update_loop self L T cb depth c d rep del st (schedule (Suc n)) (int n)
        = update_loop self L T cb depth c d rep del st2 (schedule (Suc (Suc n))) (int (Suc n))"
      by (subst loop_step) (use b ab Continue in simp)
    have "m = 15 - Suc n" "Suc n \<le> 15" using Suc.hyps(2) n by simp_all
    from Suc.hyps(1)[OF this, of st2] obtain st' r k where
      k: "update_loop self L T cb depth c d rep del st2 (schedule (Suc (Suc n))) (int (Suc n)) = Some (st', r)"
         "Suc (Suc n) \<le> k" "k \<le> 16"
         "sleeps (trace st') = sleeps (trace st2) @ map schedule [Suc (Suc n)..<Suc k]"
         "k = 16 \<longrightarrow> r = Inr (False, VStr (timed_out c d), PStr []) \<and>
                        (\<exists>tr. trace st' = tr @ [Sleep (schedule 16)])"
      by blast
    have "[Suc n..<Suc k] = Suc n # [Suc (Suc n)..<Suc k]" using k(2) by (simp add: upt_conv_Cons)
    then have "sleeps (trace st') = sleeps (trace st) @ map schedule [Suc n..<Suc k]"
      using k(4) sl by simp
    then show ?thesis using k eq by (intro exI[of _ st'] exI[of _ r] exI[of _ k]) simp
  next
    case (Return r)
    have eq: "update_loop self L T cb depth c d rep del st (schedule (Suc n)) (int n) = Some (st2, r)"
      by (subst loop_step) (use b ab Return in simp)
    show ?thesis using eq sl n by (intro exI[of _ st2] exI[of _ r] exI[of _ "Suc n"]) simp
  qed
qed

lemma fs0_simps [simp]: "id_token fs0 = S ''tok''" "local_id fs0 = S ''u''"
  by (simp_all add: fs0_def Firestore_def Let_def)

lemma S_not_Nil [simp]: "(S s = []) = (s = [])"
  by (simp add: S_def)

lemma attempt_empty:
  assumes "heap st = h" "h ! 0 = ODict []" "h \<noteq> []" "net st = w"
  shows "attempt_body fs0 lib0 (contended n (PDict [])) None (Suc depth) (S ''u'') (S ''doc'')
           (VRef 0) (PDict []) st
         = (st\<lparr>heap := h @ [ODict []], trace := trace st @ [Sent get_doc, Sent post_empty],
               net := Suc w\<rparr>,
            if w < n then Continue
            else Return (Inr (True, VRef (length h), PStr (S ''t2''))))"
  using assms
  by (simp add: attempt_body_def read_def commit_def send_def build_headers_def caught_def
      ebind_def parse_result_def parse_result_update_def contended_def dict_has_def
      precondition_failed_def written_def get_doc_def post_empty_def
      headers0_def
      Let_def nth_append)

lemma run_success:
  assumes "n \<le> 14" "a \<le> n" "heap st \<noteq> []" "heap st ! 0 = ODict []" "net st = a"
  shows "\<exists>st'. update_loop fs0 lib0 (contended n (PDict [])) None (Suc depth) (S ''u'') (S ''doc'')
                 (VRef 0) (PDict []) st (schedule (Suc a)) (int a)
               = Some (st', Inr (True, VRef (length (heap st) + (n - a)), PStr (S ''t2''))) \<and>
               sleeps (trace st') = sleeps (trace st) @ map schedule [Suc a..<Suc (Suc n)]"
  using assms
proof (induction "n - a" arbitrary: a st)
  case 0
  then have a: "a = n" by simp
  have b: "\<not> schedule (Suc (Suc a)) \<ge> 60" using schedule_small[of "Suc (Suc a)"] 0 by simp
  let ?st1 = "sleep st (schedule (Suc a))"
  have h: "heap ?st1 = heap st" "net ?st1 = a" using 0 by (simp_all add: sleep_def)
  show ?case
    by (subst loop_step)
       (use b attempt_empty[OF h(1) "0.prems"(4) "0.prems"(3) h(2), of n depth] a in
          \<open>simp add: sleep_def\<close>)
next
  case (Suc m)
  then have a: "a < n" by simp
  have b: "\<not> schedule (Suc (Suc a)) \<ge> 60" using schedule_small[of "Suc (Suc a)"] Suc.prems by simp
  let ?st1 = "sleep st (schedule (Suc a))"
  let ?st2 = "?st1\<lparr>heap := heap st @ [ODict []],
                     trace := trace ?st1 @ [Sent get_doc, Sent post_empty], net := Suc a\<rparr>"
  have h: "heap ?st1 = heap st" "net ?st1 = a" using Suc.prems by (simp_all add: sleep_def)
  have ab: "attempt_body fs0 lib0 (contended n (PDict [])) None (Suc depth) (S ''u'') (S ''doc'')
           (VRef 0) (PDict []) ?st1 = (?st2, Continue)"
    using attempt_empty[OF h(1) Suc.prems(4) Suc.prems(3) h(2), of n depth] a by simp
  have eq: "update_loop fs0 lib0 (contended n (PDict [])) None (Suc depth) (S ''u'') (S ''doc'')
                 (VRef 0) (PDict []) st (schedule (Suc a)) (int a)
          = update_loop fs0 lib0 (contended n (PDict [])) None (Suc depth) (S ''u'') (S ''doc'')
                 (VRef 0) (PDict []) ?st2 (schedule (Suc (Suc a))) (int (Suc a))"
    by (subst loop_step) (use b ab in simp)
  have p: "m = n - Suc a" "Suc a \<le> n" "heap ?st2 \<noteq> []" "heap ?st2 ! 0 = ODict []" "net ?st2 = Suc a"
    using Suc.hyps(2) a Suc.prems(3,4) by (simp_all add: nth_append)
  from Suc.hyps(1)[OF p(1) Suc.prems(1) p(2-5)] obtain st' where
    st': "update_loop fs0 lib0 (contended n (PDict [])) None (Suc depth) (S ''u'') (S ''doc'')
                 (VRef 0) (PDict []) ?st2 (schedule (Suc (Suc a))) (int (Suc a))
          = Some (st', Inr (True, VRef (length (heap ?st2) + (n - Suc a)), PStr (S ''t2'')))"
      "sleeps (trace st') = sleeps (trace ?st2) @ map schedule [Suc (Suc a)..<Suc (Suc n)]"
    by blast
  have "[Suc a..<Suc (Suc n)] = Suc a # [Suc (Suc a)..<Suc (Suc n)]"
    using a by (simp add: upt_conv_Cons)
  then have "sleeps (trace st') = sleeps (trace st) @ map schedule [Suc a..<Suc (Suc n)]"
    using st'(2) by (simp add: sleep_def)
  moreover have "length (heap ?st2) + (n - Suc a) = length (heap st) + (n - a)" using a by simp
  ultimately show ?case using eq st'(1) by (intro exI[of _ st']) simp
qed

lemma run_timeout:
  assumes "15 \<le> n" "a \<le> 15" "heap st \<noteq> []" "heap st ! 0 = ODict []" "net st = a"
  shows "\<exists>st'. update_loop fs0 lib0 (contended n (PDict [])) None (Suc depth) (S ''u'') (S ''doc'')
                 (VRef 0) (PDict []) st (schedule (Suc a)) (int a)
               = Some (st', Inr (False, VStr (timed_out (S ''u'') (S ''doc'')), PStr [])) \<and>
               sleeps (trace st') = sleeps (trace st) @ map schedule [Suc a..<17] \<and>
               length (requests (trace st')) = length (requests (trace st)) + 2 * (15 - a)"
  using assms
proof (induction "15 - a" arbitrary: a st)
  case 0
  then have a: "a = 15" by simp
  show ?case
    by (subst loop_step) (use schedule_17 a in \<open>simp add: sleep_def\<close>)
next
  case (Suc m)
  then have a: "a < 15" by simp
  have b: "\<not> schedule (Suc (Suc a)) \<ge> 60" using schedule_small[of "Suc (Suc a)"] a by simp
  let ?st1 = "sleep st (schedule (Suc a))"
  let ?st2 = "?st1\<lparr>heap := heap st @ [ODict []],
                     trace := trace ?st1 @ [Sent get_doc, Sent post_empty], net := Suc a\<rparr>"
  have h: "heap ?st1 = heap st" "net ?st1 = a" using Suc.prems by (simp_all add: sleep_def)
  have ab: "attempt_body fs0 lib0 (contended n (PDict [])) None (Suc depth) (S ''u'') (S ''doc'')
           (VRef 0) (PDict []) ?st1 = (?st2, Continue)"
    using attempt_empty[OF h(1) Suc.prems(4) Suc.prems(3) h(2), of n depth] a Suc.prems(1) by simp
  have eq: "update_loop fs0 lib0 (contended n (PDict [])) None (Suc depth) (S ''u'') (S ''doc'')
                 (VRef 0) (PDict []) st (schedule (Suc a)) (int a)
          = update_loop fs0 lib0 (contended n (PDict [])) None (Suc depth) (S ''u'') (S ''doc'')
                 (VRef 0) (PDict []) ?st2 (schedule (Suc (Suc a))) (int (Suc a))"
    by (subst loop_step) (use b ab in simp)
  have p: "m = 15 - Suc a" "Suc a \<le> 15" "heap ?st2 \<noteq> []" "heap ?st2 ! 0 = ODict []" "net ?st2 = Suc a"
    using Suc.hyps(2) a Suc.prems(3,4) by (simp_all add: nth_append)
  from Suc.hyps(1)[OF p(1) Suc.prems(1) p(2-5)] obtain st' where
    st': "update_loop fs0 lib0 (contended n (PDict [])) None (Suc depth) (S ''u'') (S ''doc'')
                 (VRef 0) (PDict []) ?st2 (schedule (Suc (Suc a))) (int (Suc a))
          = Some (st', Inr (False, VStr (timed_out (S ''u'') (S ''doc'')), PStr []))"
      "sleeps (trace st') = sleeps (trace ?st2) @ map schedule [Suc (Suc a)..<17]"
      "length (requests (trace st')) = length (requests (trace ?st2)) + 2 * (15 - Suc a)"
    by blast
  have "[Suc a..<17] = Suc a # [Suc (Suc a)..<17]"
    using a by (simp add: upt_conv_Cons)
  then have "sleeps (trace st') = sleeps (trace st) @ map schedule [Suc a..<17]"
    using st'(2) by (simp add: sleep_def)
  moreover have "length (requests (trace st')) = length (requests (trace st)) + 2 * (15 - a)"
    using st'(3) a by (simp add: sleep_def)
  ultimately show ?case using eq st'(1) by (intro exI[of _ st']) simp
qed

lemma dict_replace_numeral:
  "dict_replace (numeral k) h existing replace =
     (case (deref h replace, existing, deref h existing) of
        (Some (ODict r), VRef a, Some (ODict _)) \<Rightarrow>
          (case replace_items (pred_numeral k) h a r of Inl e \<Rightarrow> Inl e | Inr h' \<Rightarrow> Inr (h', False))
      | (Some (OList r), VRef a, Some (OList _)) \<Rightarrow> replace_elems h a r False
      | _ \<Rightarrow> Inr (h, False))"
  by (simp add: numeral_eq_Suc)

lemma reify_numeral:
  "reify (numeral k) h (VRef a) =
     (case deref h (VRef a) of
        Some (OList vs) \<Rightarrow> map_sum id PList (reify_elems (pred_numeral k) h vs)
      | Some (ODict d) \<Rightarrow> map_sum id PDict (reify_items (pred_numeral k) h d)
      | None \<Rightarrow> Inl Unmodelled)"
  by (simp add: numeral_eq_Suc)

lemma build_headers_fs0: "build_headers fs0 = Inr headers0"
  by (simp add: build_headers_def headers0_def)

lemma read_contended:
  "c \<noteq> [] \<Longrightarrow> d \<noteq> [] \<Longrightarrow>
   read fs0 lib0 (contended n doc) depth st c d =
     (st\<lparr>trace := trace st @ [Sent (GET (REST fs0 @ c @ S ''/'' @ d) headers0)]\<rparr>,
      caught lib0 (parse_result depth lib0
                     (PDict [(S ''fields'', doc), (S ''updateTime'', PStr (S ''t1''))])))"
  by (simp add: read_def build_headers_fs0 send_def contended_def ebind_def Let_def)

lemma parse_result_fields:
  "dict_from_firestore depth L doc = Inr data \<Longrightarrow>
   parse_result depth L (PDict [(S ''fields'', doc), (S ''updateTime'', ut)]) = Inr (True, data, ut)"
  by (simp add: parse_result_def ebind_def dict_has_def)

lemma attempt_unfold:
  assumes "read self L T depth st c d = (st1, (True, data, ut))" "alloc (heap st1) data = (h1, ex)"
  shows "attempt_body self L T cb depth c d rep del st =
     (case dict_replace depth h1 ex rep of
        Inl e \<Rightarrow> (st1\<lparr>heap := h1\<rparr>, Return (Inl e))
      | Inr (h2, _) \<Rightarrow>
          (case dict_pop h2 ex del of
             Inl e \<Rightarrow> (st1\<lparr>heap := h2\<rparr>, Return (Inl e))
           | Inr (h3, _) \<Rightarrow>
               (case (case cb of None \<Rightarrow> Inr h3 | Some f \<Rightarrow> f h3 ex) of
                  Inl e \<Rightarrow> (st1\<lparr>heap := h3\<rparr>, Return (Inl e))
                | Inr h4 \<Rightarrow>
                    (case reify depth h4 ex of
                       Inl e \<Rightarrow> (st1\<lparr>heap := h4\<rparr>, Return (Inl e))
                     | Inr doc \<Rightarrow>
                         (case dict_size depth doc of
                            Inl e \<Rightarrow> (st1\<lparr>heap := h4\<rparr>, Return (Inl e))
                          | Inr sz \<Rightarrow>
                              if sz > 19990
                              then (st1\<lparr>heap := h4\<rparr>,
                                    Return (Inr (False, VStr (too_many sz), PStr [])))
                              else commit self L T depth c d (st1\<lparr>heap := h4\<rparr>) ex doc ut)))))"
  using assms unfolding attempt_body_def by simp

lemma attempt_pop_raises:
  assumes "read self L T depth st c d = (st1, (True, data, ut))" "alloc (heap st1) data = (h1, ex)"
    and "dict_replace depth h1 ex rep = Inr (h2, b)" "dict_pop h2 ex del = Inl e"
  shows "attempt_body self L T cb depth c d rep del st = (st1\<lparr>heap := h2\<rparr>, Return (Inl e))"
  by (simp add: attempt_unfold[OF assms(1,2)] assms(3,4))

lemma attempt_commits:
  assumes "read self L T depth st c d = (st1, (True, data, ut))" "alloc (heap st1) data = (h1, ex)"
    and "dict_replace depth h1 ex rep = Inr (h2, b)" "dict_pop h2 ex del = Inr (h3, v)"
    and "reify depth h3 ex = Inr doc" "dict_size depth doc = Inr n" "n \<le> 19990"
  shows "attempt_body self L T None depth c d rep del st
         = commit self L T depth c d (st1\<lparr>heap := h3\<rparr>) ex doc ut"
  using assms(7) by (simp add: attempt_unfold[OF assms(1,2)] assms(3,4,5,6))

lemma attempt_too_many:
  assumes "read self L T depth st c d = (st1, (True, data, ut))" "alloc (heap st1) data = (h1, ex)"
    and "dict_replace depth h1 ex rep = Inr (h2, b)" "dict_pop h2 ex del = Inr (h3, v)"
    and "(case cb of None \<Rightarrow> Inr h3 | Some f \<Rightarrow> f h3 ex) = Inr h4"
    and "reify depth h4 ex = Inr doc" "dict_size depth doc = Inr n" "19991 \<le> n"
  shows "attempt_body self L T cb depth c d rep del st
         = (st1\<lparr>heap := h4\<rparr>, Return (Inr (False, VStr (too_many n), PStr [])))"
  using assms(8) by (simp add: attempt_unfold[OF assms(1,2)] assms(3,4,5,6,7))

lemma commit_contended:
  assumes "dict_to_firestore depth doc False = Inr fs"
  shows "commit fs0 lib0 (contended n doc0) depth c d st ex doc ut =
     (st\<lparr>trace := trace st @
            [Sent (POST (butlast (REST fs0) @ S '':commit'') headers0
               (PDict [(S ''writes'',
                  PList [PDict [(S ''update'', PDict [(S ''fields'', fs),
                                   (S ''name'', PStr (path fs0 @ c @ S ''/'' @ d))]),
                                (S ''currentDocument'', PDict [(S ''updateTime'', ut)])]])]))],
          net := Suc (net st)\<rparr>,
      if net st < n then Continue else Return (Inr (True, ex, PStr (S ''t2''))))"
  using assms
  by (simp add: commit_def build_headers_fs0 send_def contended_def ebind_def Let_def
      precondition_failed_def written_def parse_result_update_def dict_has_def)

lemma int_of_digits_7: "int_of_digits L (S ''7'') = Inr 7"
  by (simp add: S_def int_of_digits_def int_of_decimal_def is_digit_def nat_of_digits_def
      max_str_digits_def)

lemma loop_first:
  "update_loop self L T cb depth c d rep del st 0 0 =
     (case attempt_body self L T cb depth c d rep del (sleep st 0) of
        (st', Continue) \<Rightarrow> update_loop self L T cb depth c d rep del st' (schedule 2) 1
      | (st', Return r) \<Rightarrow> Some (st', r))"
proof -
  have "schedule (Suc 0) = 0" "\<not> schedule (Suc (Suc 0)) \<ge> 60" "schedule (Suc (Suc 0)) = schedule 2"
    by (simp_all add: schedule_def)
  then show ?thesis using loop_step[of self L T cb depth c d rep del st 0] by simp
qed

lemma loop_second:
  "update_loop self L T cb depth c d rep del st (schedule 2) 1 =
     (case attempt_body self L T cb depth c d rep del (sleep st 0) of
        (st', Continue) \<Rightarrow> update_loop self L T cb depth c d rep del st' (schedule 3) 2
      | (st', Return r) \<Rightarrow> Some (st', r))"
proof -
  have "schedule (Suc 1) = schedule 2" "schedule 2 = 0" "\<not> schedule (Suc (Suc 1)) \<ge> 60"
     "schedule (Suc (Suc 1)) = schedule 3"
    by (simp_all add: schedule_def)
  then show ?thesis using loop_step[of self L T cb depth c d rep del st 1] by simp
qed

lemma read_success_trace:
  "read self L T depth st c d = (st1, (True, data, ut)) \<Longrightarrow>
     heap st1 = heap st \<and> (\<exists>url hs. trace st1 = trace st @ [Sent (GET url hs)])"
  by (auto simp: read_def Let_def caught_def split: sum.splits prod.splits dest!: send_trace)

lemma leaves_many: "sum_list (map leaves (many n PNone)) = n"
  by (induction n) (simp_all add: many_def)

lemma nesting_many: "max_list (map nesting (many n PNone)) = 0"
  by (induction n) (simp_all add: many_def)

lemma reify_elems_many: "reify_elems depth h (many n VNone) = Inr (many n PNone)"
  by (induction n) (simp_all add: many_def)

section \<open>Claims about the codec and the value classes\<close>







text \<open>
  What the constructor of \<open>GeoPoint\<close> does with numbers that are not NaN and with
  arguments that are no numbers: \<open>GeoPoint(200, -300)\<close> holds latitude 90 and longitude
  -180, \<open>GeoPoint("x", "y")\<close> holds 0 and 0, any argument that is neither an \<open>int\<close> nor a
  \<open>float\<close> gives its field the value 0, and a number that is not NaN gives the nearest
  bound of \<open>[-90, 90]\<close>, respectively \<open>[-180, 180]\<close>, or itself when it is within the bounds.
\<close>

lemma clamp_nearest:
  "0 \<le> b \<Longrightarrow> float_of_number x \<noteq> NaN \<Longrightarrow>
   py_min (py_max x (NumInt (- b))) (NumInt b) = nearest_bound b x \<and> in_bounds b (nearest_bound b x)"
  by (cases "float_of_number x")
     (auto simp: py_min_def py_max_def nearest_bound_def in_bounds_def num_less_def float_le_def)

lemma GeoPoint_clamps_numbers:
  "GeoPoint (PInt 200) (PInt (- 300)) = PGeoPoint (NumInt 90) (NumInt (- 180)) \<and>
   GeoPoint (PStr (S ''x'')) (PStr (S ''y'')) = PGeoPoint (NumInt 0) (NumInt 0) \<and>
   (\<exists>la lo. GeoPoint lat lon = PGeoPoint la lo \<and>
      (case as_number lat of
         None \<Rightarrow> la = NumInt 0
       | Some x \<Rightarrow> float_of_number x \<noteq> NaN \<longrightarrow> la = nearest_bound 90 x \<and> in_bounds 90 la) \<and>
      (case as_number lon of
         None \<Rightarrow> lo = NumInt 0
       | Some y \<Rightarrow> float_of_number y \<noteq> NaN \<longrightarrow> lo = nearest_bound 180 y \<and> in_bounds 180 lo))"
proof -
  have 1: "GeoPoint (PInt 200) (PInt (- 300)) = PGeoPoint (NumInt 90) (NumInt (- 180))"
    by (simp add: GeoPoint_def Let_def py_min_def py_max_def num_less_def)
  have 2: "GeoPoint (PStr (S ''x'')) (PStr (S ''y'')) = PGeoPoint (NumInt 0) (NumInt 0)"
    by (simp add: GeoPoint_def Let_def py_min_def py_max_def num_less_def)
  have c90: "float_of_number x \<noteq> NaN \<Longrightarrow>
     py_min (py_max x (NumInt (- 90))) (NumInt 90) = nearest_bound 90 x \<and>
     in_bounds 90 (nearest_bound 90 x)" for x
    using clamp_nearest[of 90 x] by simp
  have c180: "float_of_number x \<noteq> NaN \<Longrightarrow>
     py_min (py_max x (NumInt (- 180))) (NumInt 180) = nearest_bound 180 x \<and>
     in_bounds 180 (nearest_bound 180 x)" for x
    using clamp_nearest[of 180 x] by simp
  have z90: "py_min (py_max (NumInt 0) (NumInt (- 90))) (NumInt 90) = NumInt 0"
    by (simp add: py_min_def py_max_def num_less_def)
  have z180: "py_min (py_max (NumInt 0) (NumInt (- 180))) (NumInt 180) = NumInt 0"
    by (simp add: py_min_def py_max_def num_less_def)
  have 3: "\<exists>la lo. GeoPoint lat lon = PGeoPoint la lo \<and>
      (case as_number lat of
         None \<Rightarrow> la = NumInt 0
       | Some x \<Rightarrow> float_of_number x \<noteq> NaN \<longrightarrow> la = nearest_bound 90 x \<and> in_bounds 90 la) \<and>
      (case as_number lon of
         None \<Rightarrow> lo = NumInt 0
       | Some y \<Rightarrow> float_of_number y \<noteq> NaN \<longrightarrow> lo = nearest_bound 180 y \<and> in_bounds 180 lo)"
    unfolding GeoPoint_def Let_def
    by (cases "as_number lat"; cases "as_number lon") (simp_all add: z90 z180 c90 c180)
  show ?thesis using 1 2 3 by blast
qed

text \<open>
  C9. Construction of a \<open>GeoPoint\<close> from NaN. \<open>float('nan')\<close> is a \<open>float\<close>, so it passes
  the test for a number, and \<open>max(nan, -90)\<close> and \<open>min(nan, 90)\<close> both return NaN because
  every comparison with NaN is false: \<open>GeoPoint(float('nan'), 0)\<close> holds the latitude NaN,
  which is not within \<open>[-90, 90]\<close>, although the class says "Latitude in -90 to 90" and
  "Out of range values will be truncated". The same happens to a NaN longitude, whatever
  the other argument is.
\<close>

theorem GeoPoint_nan_not_clamped:
  "GeoPoint (PFloat NaN) (PInt 0) = PGeoPoint (NumFloat NaN) (NumInt 0) \<and>
   \<not> in_bounds 90 (NumFloat NaN) \<and>
   (\<exists>lo. GeoPoint (PFloat NaN) lon = PGeoPoint (NumFloat NaN) lo) \<and>
   (\<exists>la. GeoPoint lat (PFloat NaN) = PGeoPoint la (NumFloat NaN)) \<and>
   \<not> in_bounds 180 (NumFloat NaN)"
  by (simp add: GeoPoint_def Let_def py_min_def py_max_def num_less_def in_bounds_def float_le_def)

section \<open>Claims about the merge\<close>

lemma sorted_desc_0_2:
  "sorted_desc [[PInt 0, u], [PInt 2, v]] = Inr [[PInt 2, v], [PInt 0, u]]"
  by (simp add: sorted_desc_def num_less_def)

lemma sorted_desc_2_0:
  "sorted_desc [[PInt 2, v], [PInt 0, u]] = Inr [[PInt 2, v], [PInt 0, u]]"
  by (simp add: sorted_desc_def num_less_def)

lemma pop_elems_2_0:
  assumes "a < length h" "h ! a = OList [x0, x1, x2, x3]"
    and "\<not> (py_bool u \<and> is_container u)" "\<not> (py_bool v \<and> is_container v)"
  shows "pop_elems h a [[PInt 2, v], [PInt 0, u]] = Inr (h[a := OList [x1, x3]])"
proof -
  have [simp]: "(py_bool u \<and> is_container u) = False" "(py_bool v \<and> is_container v) = False"
    using assms(3,4) by simp_all
  show ?thesis using assms(1,2) by (simp add: num_less_def list_pop_def)
qed

text \<open>
  C6. Positional delete. With \<open>existing\<close> the list \<open>[x0, x1, x2, x3]\<close> and a delete
  list that names the indices 0 and 2, each with a leaf value (anything but a non-empty
  dict or list), \<open>dict_pop\<close> leaves \<open>[x1, x3]\<close>, in whichever order the two pairs are
  given: index 2 is removed first in both cases.
\<close>

theorem positional_delete_order:
  assumes "a < length h" "h ! a = OList [x0, x1, x2, x3]"
    and "\<not> (py_bool u \<and> is_container u)" "\<not> (py_bool v \<and> is_container v)"
  shows "dict_pop h (VRef a) (PList [PTuple [PInt 0, u], PTuple [PInt 2, v]])
           = Inr (h[a := OList [x1, x3]], VRef a) \<and>
         dict_pop h (VRef a) (PList [PTuple [PInt 2, v], PTuple [PInt 0, u]])
           = Inr (h[a := OList [x1, x3]], VRef a)"
  using assms(1,2) pop_elems_2_0[OF assms]
  by (simp add: sorted_desc_0_2 sorted_desc_2_0)

theorem positional_delete_order_witness:
  "dict_pop [OList [VStr (S ''a''), VStr (S ''b''), VStr (S ''c''), VStr (S ''d'')]] (VRef 0)
     (PList [PTuple [PInt 0, PNone], PTuple [PInt 2, PDict []]])
     = Inr ([OList [VStr (S ''b''), VStr (S ''d'')]], VRef 0) \<and>
   dict_pop [OList [VStr (S ''a''), VStr (S ''b''), VStr (S ''c''), VStr (S ''d'')]] (VRef 0)
     (PList [PTuple [PInt 2, PDict []], PTuple [PInt 0, PNone]])
     = Inr ([OList [VStr (S ''b''), VStr (S ''d'')]], VRef 0)"
  using positional_delete_order[of 0 "[OList [VStr (S ''a''), VStr (S ''b''), VStr (S ''c''), VStr (S ''d'')]]"
      "VStr (S ''a'')" "VStr (S ''b'')" "VStr (S ''c'')" "VStr (S ''d'')" PNone "PDict []"]
  by simp

text \<open>
  C10. A delete list with an entry that is no tuple deletes nothing. The test of the
  code is \<open>isinstance(ele, tuple)\<close>; the length of a tuple is not looked at. For every list
  \<open>existing\<close> and every delete list that has at least one entry that is not a tuple,
  \<open>dict_pop\<close> returns a new empty list at once: no object that existed before is
  changed, so \<open>existing\<close> keeps its elements, also those named by tuple entries.
  An entry that is a tuple but no pair does not have this effect: a tuple of three
  elements deletes like a pair, and a tuple of one element makes the call raise
  \<open>IndexError\<close> when its turn comes.
\<close>

theorem non_tuple_entry_no_deletion:
  assumes "a < length h" "h ! a = OList existing" "\<exists>ele\<in>set removes. \<not> is_tuple ele"
  shows "dict_pop h (VRef a) (PList removes) = Inr (h @ [OList []], VRef (length h)) \<and>
         (h @ [OList []]) ! a = OList existing \<and> take (length h) (h @ [OList []]) = h"
  using assms by (simp add: list_ex_iff nth_append)

theorem non_tuple_entry_no_deletion_witness:
  "dict_pop [OList [VInt 10, VInt 20, VInt 30]] (VRef 0)
      (PList [PTuple [PInt 0, PNone], PInt 1, PTuple [PInt 2, PNone]])
     = Inr ([OList [VInt 10, VInt 20, VInt 30], OList []], VRef 1)"
  using non_tuple_entry_no_deletion[of 0 "[OList [VInt 10, VInt 20, VInt 30]]" "[VInt 10, VInt 20, VInt 30]"
      "[PTuple [PInt 0, PNone], PInt 1, PTuple [PInt 2, PNone]]"]
  by simp

theorem tuple_not_pair_counterexample:
  "dict_pop [OList [VInt 10, VInt 20, VInt 30]] (VRef 0)
      (PList [PTuple [PInt 0, PNone, PStr (S ''x'')]])
     = Inr ([OList [VInt 20, VInt 30]], VRef 0) \<and>
   dict_pop [OList [VInt 10, VInt 20, VInt 30]] (VRef 0)
      (PList [PTuple [PInt 2, PNone], PTuple [PInt 0]])
     = Inl IndexError"
  by (simp add: sorted_desc_def num_less_def list_pop_def)

subsection \<open>The flag of dict_replace\<close>








section \<open>Claims about update\<close>

text \<open>
  C2. The waits of \<open>update\<close>. Every call of \<open>update\<close> returns, after at most 16 calls of
  \<open>sleep\<close>, and the waits are the first \<open>k\<close> of the schedule: 0 seconds before each of
  the attempts 1 to 5, 1 second before attempt 6, 1.5 seconds before attempt 7, and 1.5
  times the previous wait before every later attempt. (\<open>sleep(backoff)\<close> comes first in the
  loop body; \<open>backoff\<close> becomes 1 during attempt 5 and is slept before attempt 6.) When
  the 16th wait is reached, the backoff computed after it is the first to reach 60; the
  call then returns the timed-out error and the wait is the last event: no request
  follows it.
\<close>

theorem update_backoff_schedule:
  "\<exists>st' r k.
     update self L T callback depth st collection document replace delete' = Some (st', r) \<and>
     1 \<le> k \<and> k \<le> 16 \<and>
     sleeps (trace st') = sleeps (trace st) @ map schedule [1..<Suc k] \<and>
     (k = 16 \<longrightarrow>
        r = Inr (False,
                 VStr (timed_out (if collection = [] then local_id self else collection)
                                 (if document = [] then local_id self else document)),
                 PStr []) \<and>
        (\<exists>tr. trace st' = tr @ [Sleep (schedule 16)]) \<and> schedule 16 < 60 \<and> 60 \<le> schedule 16 * 1.5) \<and>
     map schedule [1..<8] = [0, 0, 0, 0, 0, 1, 1.5] \<and>
     (\<forall>n\<ge>6. schedule (Suc n) = schedule n * 1.5)"
proof -
  let ?c = "if collection = [] then local_id self else collection"
  let ?d = "if document = [] then local_id self else document"
  have s1: "schedule (Suc 0) = 0" by (simp add: schedule_def)
  have z: "(0::nat) \<le> 15" by simp
  have "\<exists>st' r k. update_loop self L T callback depth ?c ?d replace delete' st 0 0 = Some (st', r) \<and>
           Suc 0 \<le> k \<and> k \<le> 16 \<and>
           sleeps (trace st') = sleeps (trace st) @ map schedule [Suc 0..<Suc k] \<and>
           (k = 16 \<longrightarrow> r = Inr (False, VStr (timed_out ?c ?d), PStr []) \<and>
                        (\<exists>tr. trace st' = tr @ [Sleep (schedule 16)]))"
    using loop_schedule[OF z, of self L T callback depth ?c ?d replace delete' st]
    by (simp only: s1 of_nat_0)
  then obtain st' r k where
    k: "update_loop self L T callback depth ?c ?d replace delete' st 0 0 = Some (st', r)"
       "1 \<le> k" "k \<le> 16" "sleeps (trace st') = sleeps (trace st) @ map schedule [1..<Suc k]"
       "k = 16 \<longrightarrow> r = Inr (False, VStr (timed_out ?c ?d), PStr []) \<and>
                        (\<exists>tr. trace st' = tr @ [Sleep (schedule 16)])"
    unfolding One_nat_def by blast
  have a: "schedule 16 < 60" by (rule schedule_small) simp
  have b: "60 \<le> schedule 16 * 1.5" by (simp add: schedule_def power_divide)
  have "[1..<8] = [1, 2, 3, 4, 5, 6, 7::nat]" by code_simp
  then have c: "map schedule [1..<8] = [0, 0, 0, 0, 0, 1, 1.5]"
    by (simp add: schedule_def)
  have d: "\<forall>n\<ge>6. schedule (Suc n) = schedule n * 1.5"
  proof (intro allI impI)
    fix n :: nat assume "6 \<le> n"
    then obtain m where "n = 6 + m" using le_Suc_ex by blast
    then show "schedule (Suc n) = schedule n * 1.5" by (simp add: schedule_def)
  qed
  have u: "update self L T callback depth st collection document replace delete' = Some (st', r)"
    using k(1) by (simp add: update_def Let_def)
  show ?thesis
    by (intro exI[of _ st'] exI[of _ r] exI[of _ k] conjI u k(2-4) c d)
       (use k(5) a b in blast)
qed

theorem update_backoff_schedule_witness:
  "\<exists>st'. update fs0 lib0 (contended 15 (PDict [])) None 100 (start [ODict []])
           [] (S ''doc'') (VRef 0) (PDict [])
         = Some (st', Inr (False, VStr (timed_out (S ''u'') (S ''doc'')), PStr [])) \<and>
         sleeps (trace st') = map schedule [1..<17] \<and> length (requests (trace st')) = 30"
proof -
  have s1: "schedule (Suc 0) = 0" by (simp add: schedule_def)
  from run_timeout[of 15 0 "start [ODict []]" 99]
  obtain st' where st':
    "update_loop fs0 lib0 (contended 15 (PDict [])) None 100 (S ''u'') (S ''doc'')
                 (VRef 0) (PDict []) (start [ODict []]) 0 0
               = Some (st', Inr (False, VStr (timed_out (S ''u'') (S ''doc'')), PStr []))"
    "sleeps (trace st') = map schedule [1..<17]" "length (requests (trace st')) = 30"
    by (auto simp: s1 start_def)
  have u: "update fs0 lib0 (contended 15 (PDict [])) None 100 (start [ODict []])
           [] (S ''doc'') (VRef 0) (PDict []) = Some (st', Inr (False, VStr (timed_out (S ''u'') (S ''doc'')), PStr []))"
    using st'(1) by (simp add: update_def Let_def)
  show ?thesis
    using update_backoff_schedule[of fs0 lib0 "contended 15 (PDict [])" None 100 "start [ODict []]"
        "[]" "S ''doc''" "VRef 0" "PDict []"] u st'(2,3)
    by (intro exI[of _ st']) simp
qed

theorem backoff_fifth_attempt_counterexample:
  "\<exists>st'. update fs0 lib0 (contended 5 (PDict [])) None 100 (start [ODict []])
           [] (S ''doc'') (VRef 0) (PDict [])
         = Some (st', Inr (True, VRef 6, PStr (S ''t2''))) \<and>
         sleeps (trace st') = [0, 0, 0, 0, 0, 1]"
proof -
  have s1: "schedule (Suc 0) = 0" by (simp add: schedule_def)
  have "[Suc 0..<Suc (Suc 5)] = [1, 2, 3, 4, 5, 6::nat]" by code_simp
  then have m: "map schedule [Suc 0..<Suc (Suc 5)] = [0, 0, 0, 0, 0, 1]"
    by (simp add: schedule_def)
  from run_success[of 5 0 "start [ODict []]" 99]
  obtain st' where st':
    "update_loop fs0 lib0 (contended 5 (PDict [])) None 100 (S ''u'') (S ''doc'')
                 (VRef 0) (PDict []) (start [ODict []]) 0 0
               = Some (st', Inr (True, VRef 6, PStr (S ''t2'')))"
    "sleeps (trace st') = [0, 0, 0, 0, 0, 1]"
    unfolding m by (auto simp: s1 start_def)
  then show ?thesis by (intro exI[of _ st']) (simp add: update_def Let_def)
qed

text \<open>
  C4. The size limit, for a document that \<open>dict_size\<close> can count. \<open>dict_size\<close> returns the
  number of leaves when the nesting of the document is below the number of nested calls
  the interpreter still allows. Then a document of 19,991 or more leaves is refused by
  \<open>create\<close> with the size message, and the state is unchanged: nothing was sent. In any pass
  of the loop of \<open>update\<close> that is not timed out, whose read succeeds and whose merge and
  callback raise nothing, such a merged document ends the call with the size message:
  the pass adds to the trace its wait and the GET of the read and nothing else, so no
  commit is sent and no further pass is made. This holds in particular of the first pass
  of a call of \<open>update\<close>.
\<close>

theorem size_limit_rejected:
  "(nesting data < depth \<longrightarrow> dict_size depth data = Inr (leaves data)) \<and>
   (nesting data < depth \<and> 19991 \<le> leaves data \<longrightarrow>
      create self L T depth st collection document data
        = (st, Inr (False, PStr (too_many (leaves data)), PStr []))) \<and>
   (read self L T depth (sleep st backoff) collection document
      = (st1, (True, snapshot, update_time)) \<and>
    alloc (heap st1) snapshot = (h1, existing) \<and>
    dict_replace depth h1 existing replace = Inr (h2, b) \<and>
    dict_pop h2 existing delete' = Inr (h3, v) \<and>
    (case callback of None \<Rightarrow> Inr h3 | Some f \<Rightarrow> f h3 existing) = Inr h4 \<and>
    reify depth h4 existing = Inr doc \<and> nesting doc < depth \<and> 19991 \<le> leaves doc \<and>
    (if attempt + 1 = 5 then 1 else if attempt + 1 > 5 then backoff * 1.5 else backoff) < 60
    \<longrightarrow>
      update_loop self L T callback depth collection document replace delete' st backoff attempt
        = Some (st1\<lparr>heap := h4\<rparr>, Inr (False, VStr (too_many (leaves doc)), PStr [])) \<and>
      (\<exists>url hs. trace (st1\<lparr>heap := h4\<rparr>) = trace st @ [Sleep backoff, Sent (GET url hs)])) \<and>
   (read self L T depth (sleep st 0) (if collection = [] then local_id self else collection)
        (if document = [] then local_id self else document)
      = (st1, (True, snapshot, update_time)) \<and>
    alloc (heap st1) snapshot = (h1, existing) \<and>
    dict_replace depth h1 existing replace = Inr (h2, b) \<and>
    dict_pop h2 existing delete' = Inr (h3, v) \<and>
    (case callback of None \<Rightarrow> Inr h3 | Some f \<Rightarrow> f h3 existing) = Inr h4 \<and>
    reify depth h4 existing = Inr doc \<and> nesting doc < depth \<and> 19991 \<le> leaves doc
    \<longrightarrow>
      update self L T callback depth st collection document replace delete'
        = Some (st1\<lparr>heap := h4\<rparr>, Inr (False, VStr (too_many (leaves doc)), PStr [])) \<and>
      (\<exists>url hs. trace (st1\<lparr>heap := h4\<rparr>) = trace st @ [Sleep 0, Sent (GET url hs)]))"
proof -
  have size: "dict_size depth x = Inr (leaves x)" if "nesting x < depth" for x
  proof -
    from that obtain a where a: "depth = Suc a" by (cases depth) auto
    then show ?thesis using that dict_size_leaves[of x a] by simp
  qed
  have pass: "update_loop self L T callback depth c d replace delete' st bo att
        = Some (st1\<lparr>heap := h4\<rparr>, Inr (False, VStr (too_many (leaves doc)), PStr [])) \<and>
      (\<exists>url hs. trace (st1\<lparr>heap := h4\<rparr>) = trace st @ [Sleep bo, Sent (GET url hs)])"
    if rd: "read self L T depth (sleep st bo) c d = (st1, (True, snapshot, update_time))"
      and al: "alloc (heap st1) snapshot = (h1, existing)"
      and rp: "dict_replace depth h1 existing replace = Inr (h2, b)"
      and pp: "dict_pop h2 existing delete' = Inr (h3, v)"
      and cb: "(case callback of None \<Rightarrow> Inr h3 | Some f \<Rightarrow> f h3 existing) = Inr h4"
      and rf: "reify depth h4 existing = Inr doc"
      and ne: "nesting doc < depth" and big: "19991 \<le> leaves doc"
      and bo: "(if att + 1 = 5 then 1 else if att + 1 > 5 then bo * 1.5 else bo) < 60"
    for c d bo att
  proof -
    have ab: "attempt_body self L T callback depth c d replace delete' (sleep st bo)
          = (st1\<lparr>heap := h4\<rparr>, Return (Inr (False, VStr (too_many (leaves doc)), PStr [])))"
      by (rule attempt_too_many[OF rd al rp pp cb rf size[OF ne] big])
    have nb: "\<not> 60 \<le> (if att + 1 = 5 then 1 else if att + 1 > 5 then bo * 1.5 else bo)"
      using bo by simp
    have 1: "update_loop self L T callback depth c d replace delete' st bo att
        = Some (st1\<lparr>heap := h4\<rparr>, Inr (False, VStr (too_many (leaves doc)), PStr []))"
      by (subst update_loop.simps) (simp only: Let_def nb if_False ab prod.case step.case)
    have 2: "\<exists>url hs. trace (st1\<lparr>heap := h4\<rparr>) = trace st @ [Sleep bo, Sent (GET url hs)]"
      using read_success_trace[OF rd] by (simp add: sleep_def)
    show ?thesis using 1 2 by blast
  qed
  have first: "(if (0::int) + 1 = 5 then 1 else if (0::int) + 1 > 5 then 0 * 1.5 else 0) < (60::real)"
    by simp
  show ?thesis
  proof (intro conjI impI)
    assume "nesting data < depth"
    then show "dict_size depth data = Inr (leaves data)" by (rule size)
  next
    assume "nesting data < depth \<and> 19991 \<le> leaves data"
    then show "create self L T depth st collection document data
        = (st, Inr (False, PStr (too_many (leaves data)), PStr []))"
      using size[of data] by (simp add: create_def Let_def)
  next
    assume a: "read self L T depth (sleep st backoff) collection document
        = (st1, (True, snapshot, update_time)) \<and>
      alloc (heap st1) snapshot = (h1, existing) \<and>
      dict_replace depth h1 existing replace = Inr (h2, b) \<and>
      dict_pop h2 existing delete' = Inr (h3, v) \<and>
      (case callback of None \<Rightarrow> Inr h3 | Some f \<Rightarrow> f h3 existing) = Inr h4 \<and>
      reify depth h4 existing = Inr doc \<and> nesting doc < depth \<and> 19991 \<le> leaves doc \<and>
      (if attempt + 1 = 5 then 1 else if attempt + 1 > 5 then backoff * 1.5 else backoff) < 60"
    have p: "update_loop self L T callback depth collection document replace delete' st backoff attempt
        = Some (st1\<lparr>heap := h4\<rparr>, Inr (False, VStr (too_many (leaves doc)), PStr [])) \<and>
      (\<exists>url hs. trace (st1\<lparr>heap := h4\<rparr>) = trace st @ [Sleep backoff, Sent (GET url hs)])"
      using a by (intro pass) blast+
    show "update_loop self L T callback depth collection document replace delete' st backoff attempt
        = Some (st1\<lparr>heap := h4\<rparr>, Inr (False, VStr (too_many (leaves doc)), PStr []))"
      using p by blast
    show "\<exists>url hs. trace (st1\<lparr>heap := h4\<rparr>) = trace st @ [Sleep backoff, Sent (GET url hs)]"
      using p by blast
  next
    let ?c = "if collection = [] then local_id self else collection"
    let ?d = "if document = [] then local_id self else document"
    assume a: "read self L T depth (sleep st 0) ?c ?d = (st1, (True, snapshot, update_time)) \<and>
      alloc (heap st1) snapshot = (h1, existing) \<and>
      dict_replace depth h1 existing replace = Inr (h2, b) \<and>
      dict_pop h2 existing delete' = Inr (h3, v) \<and>
      (case callback of None \<Rightarrow> Inr h3 | Some f \<Rightarrow> f h3 existing) = Inr h4 \<and>
      reify depth h4 existing = Inr doc \<and> nesting doc < depth \<and> 19991 \<le> leaves doc"
    have p: "update_loop self L T callback depth ?c ?d replace delete' st 0 0
        = Some (st1\<lparr>heap := h4\<rparr>, Inr (False, VStr (too_many (leaves doc)), PStr [])) \<and>
      (\<exists>url hs. trace (st1\<lparr>heap := h4\<rparr>) = trace st @ [Sleep 0, Sent (GET url hs)])"
      using a first by (intro pass) blast+
    show "update self L T callback depth st collection document replace delete'
        = Some (st1\<lparr>heap := h4\<rparr>, Inr (False, VStr (too_many (leaves doc)), PStr []))"
      using p by (simp add: update_def Let_def)
    show "\<exists>url hs. trace (st1\<lparr>heap := h4\<rparr>) = trace st @ [Sleep 0, Sent (GET url hs)]"
      using p by blast
  qed
qed

theorem size_limit_rejected_witness:
  "dict_size 100 (PDict [(S ''big'', PList (many 19991 PNone))]) = Inr 19991 \<and>
   create fs0 lib0 (contended 0 (PDict [])) 100 (start []) (S ''c'') (S ''doc'')
      (PDict [(S ''big'', PList (many 19991 PNone))])
     = (start [], Inr (False, PStr (too_many 19991), PStr [])) \<and>
   (\<exists>st'. update fs0 lib0 (contended 0 (PDict [])) None 100
            (start [OList (many 19991 VNone), ODict [(S ''big'', VRef 0)]])
            (S ''c'') (S ''doc'') (VRef 1) (PDict [])
          = Some (st', Inr (False, VStr (too_many 19991), PStr [])) \<and>
          trace st' = [Sleep 0, Sent (GET (REST fs0 @ S ''c'' @ S ''/'' @ S ''doc'') headers0)]) \<and>
   too_many 19991 = S ''ERROR: Dict contains too many elements (19991) for Firestore.''"
proof -
  let ?data = "PDict [(S ''big'', PList (many 19991 PNone))]"
  let ?T = "contended 0 (PDict [])"
  let ?h0 = "[OList (many 19991 VNone), ODict [(S ''big'', VRef 0)]]"
  let ?st = "start ?h0"
  let ?sl = "sleep ?st 0"
  let ?st1 = "?sl\<lparr>trace := trace ?sl @ [Sent (GET (REST fs0 @ S ''c'' @ S ''/'' @ S ''doc'') headers0)]\<rparr>"
  let ?h1 = "?h0 @ [ODict []]"
  let ?h2 = "[OList (many 19991 VNone), ODict [(S ''big'', VRef 0)], ODict [(S ''big'', VRef 0)]]"
  have lv: "leaves ?data = 19991" by (simp add: leaves_many)
  have ne: "nesting ?data < 100" by (simp add: nesting_many)
  have big: "19991 \<le> leaves ?data" using lv by simp
  have dec: "dict_from_firestore 100 lib0 (PDict []) = Inr (PDict [])"
    by (simp add: dict_from_firestore_numeral)
  have c: "(if S ''c'' = [] then local_id fs0 else S ''c'') = S ''c''"
      "(if S ''doc'' = [] then local_id fs0 else S ''doc'') = S ''doc''" by simp_all
  have rd: "read fs0 lib0 ?T 100 ?sl (if S ''c'' = [] then local_id fs0 else S ''c'')
              (if S ''doc'' = [] then local_id fs0 else S ''doc'')
            = (?st1, (True, PDict [], PStr (S ''t1'')))"
    unfolding c by (simp add: read_contended parse_result_fields[OF dec] caught_def)
  have al: "alloc (heap ?st1) (PDict []) = (?h1, VRef 2)"
    by (simp add: start_def sleep_def)
  have rp: "dict_replace 100 ?h1 (VRef 2) (VRef 1) = Inr (?h2, False)"
    by (simp add: dict_replace_numeral)
  have pp: "dict_pop ?h2 (VRef 2) (PDict []) = Inr (?h2, VRef 2)"
    by simp
  have cb: "(case None :: callback option of None \<Rightarrow> Inr ?h2 | Some f \<Rightarrow> f ?h2 (VRef 2)) = Inr ?h2"
    by simp
  have rf: "reify 100 ?h2 (VRef 2) = Inr ?data"
    by (simp add: reify_numeral reify_elems_many)
  have ds: "dict_size 100 ?data = Inr (leaves ?data)"
    using size_limit_rejected[where data = ?data and depth = 100, THEN conjunct1] ne by blast
  have cr: "create fs0 lib0 ?T 100 (start []) (S ''c'') (S ''doc'') ?data
     = (start [], Inr (False, PStr (too_many (leaves ?data)), PStr []))"
    using size_limit_rejected[where data = ?data and depth = 100 and self = fs0 and L = lib0
        and T = ?T and st = "start []" and collection = "S ''c''" and document = "S ''doc''"]
      ne big
    by blast
  have u: "update fs0 lib0 ?T None 100 ?st (S ''c'') (S ''doc'') (VRef 1) (PDict [])
        = Some (?st1\<lparr>heap := ?h2\<rparr>, Inr (False, VStr (too_many (leaves ?data)), PStr []))"
    using size_limit_rejected[where self = fs0 and L = lib0 and T = ?T and st = ?st
        and collection = "S ''c''" and document = "S ''doc''" and ?st1.0 = ?st1
        and snapshot = "PDict []" and update_time = "PStr (S ''t1'')" and ?h1.0 = ?h1
        and existing = "VRef 2" and depth = 100 and replace = "VRef 1" and ?h2.0 = ?h2
        and b = False and delete' = "PDict []" and ?h3.0 = ?h2 and v = "VRef 2"
        and callback = None and ?h4.0 = ?h2 and doc = ?data]
      rd al rp pp cb rf ne big
    by blast
  have tr: "trace (?st1\<lparr>heap := ?h2\<rparr>)
      = [Sleep 0, Sent (GET (REST fs0 @ S ''c'' @ S ''/'' @ S ''doc'') headers0)]"
    by (simp add: start_def sleep_def)
  have m: "too_many 19991 = S ''ERROR: Dict contains too many elements (19991) for Firestore.''"
    by (simp add: too_many_def S_def decimal.simps)
  show ?thesis
    using ds cr u tr m unfolding lv by blast
qed

theorem size_limit_deep_counterexample:
  "leaves (nested 1000 (PList (many 19991 PNone))) = 19991 \<and>
   create fs0 lib0 (contended 0 (PDict [])) 1000 (start []) (S ''c'') (S ''doc'')
      (nested 1000 (PList (many 19991 PNone)))
     = (start [], Inl RecursionError)"
proof -
  have 1: "leaves (nested 1000 (PList (many 19991 PNone))) = 19991"
    by (simp add: nested_leaves leaves_many)
  have "dict_size 1000 (nested 1000 (PList (many 19991 PNone))) = Inl RecursionError"
    by (rule nested_dict_size) simp
  then have 2: "create fs0 lib0 (contended 0 (PDict [])) 1000 (start []) (S ''c'') (S ''doc'')
      (nested 1000 (PList (many 19991 PNone))) = (start [], Inl RecursionError)"
    by (simp add: create_def Let_def)
  show ?thesis using 1 2 by blast
qed

text \<open>
  C7. An exception escapes \<open>update\<close>. The document read is \<open>{'a': [7]}\<close> and the delete
  overlay \<open>{'a': [(5, {'x': 1})]}\<close> asks for a partial delete inside element 5 of a list
  of one element: \<open>existing[index]\<close> in \<open>dict_pop\<close> raises \<open>IndexError\<close>. \<open>dict_pop\<close> is
  called outside any \<open>try\<close>, so the call of \<open>update\<close> ends with that exception instead
  of a tuple.
\<close>

theorem update_exception_escapes:
  "\<exists>st'. update fs0 lib0
           (contended 0 (PDict [(S ''a'', PDict [(S ''arrayValue'',
                PDict [(S ''values'', PList [PDict [(S ''integerValue'', PStr (S ''7''))]])])])]))
           None 100 (start [ODict []]) (S ''c'') (S ''doc'') (VRef 0)
           (PDict [(S ''a'', PList [PTuple [PInt 5, PDict [(S ''x'', PInt 1)]]])])
         = Some (st', Inl IndexError)"
proof -
  let ?doc = "PDict [(S ''a'', PDict [(S ''arrayValue'',
                PDict [(S ''values'', PList [PDict [(S ''integerValue'', PStr (S ''7''))]])])])]"
  let ?T = "contended 0 ?doc"
  let ?del = "PDict [(S ''a'', PList [PTuple [PInt 5, PDict [(S ''x'', PInt 1)]]])]"
  let ?st = "sleep (start [ODict []]) 0"
  let ?st1 = "?st\<lparr>trace := trace ?st @ [Sent (GET (REST fs0 @ S ''c'' @ S ''/'' @ S ''doc'') headers0)]\<rparr>"
  let ?h1 = "[ODict [], OList [VInt 7], ODict [(S ''a'', VRef 1)]]"
  have dec: "dict_from_firestore 100 lib0 ?doc = Inr (PDict [(S ''a'', PList [PInt 7])])"
    by (simp add: dict_from_firestore_numeral is_dict_value_def dict_has_def int_of_digits_7)
  have rd: "read fs0 lib0 ?T 100 ?st (S ''c'') (S ''doc'') =
      (?st1, (True, PDict [(S ''a'', PList [PInt 7])], PStr (S ''t1'')))"
    by (simp add: read_contended parse_result_fields[OF dec] caught_def)
  have al: "alloc (heap ?st1) (PDict [(S ''a'', PList [PInt 7])]) = (?h1, VRef 2)"
    by (simp add: sleep_def start_def)
  have rp: "dict_replace 100 ?h1 (VRef 2) (VRef 0) = Inr (?h1, False)"
    by (simp add: dict_replace_numeral)
  have pp: "dict_pop ?h1 (VRef 2) ?del = Inl IndexError"
    by (simp add: sorted_desc_def)
  have "attempt_body fs0 lib0 ?T None 100 (S ''c'') (S ''doc'') (VRef 0) ?del ?st
        = (?st1\<lparr>heap := ?h1\<rparr>, Return (Inl IndexError))"
    by (rule attempt_pop_raises[OF rd al rp pp])
  moreover have "(if S ''c'' = [] then local_id fs0 else S ''c'') = S ''c''"
      "(if S ''doc'' = [] then local_id fs0 else S ''doc'') = S ''doc''" by simp_all
  ultimately show ?thesis
    unfolding update_def Let_def
    by (subst loop_first) (simp only: prod.case step.case, blast)
qed

text \<open>
  C3. A retry merges the overlay as the first attempt left it. The replace overlay is
  \<open>{'a': [1, 2, 3]}\<close>, the delete overlay \<open>{'a': [(0, None)]}\<close>, every read returns the
  empty document, the first commit is refused with \<open>FAILED_PRECONDITION\<close> and the second
  one accepted. \<open>dict_replace\<close> stores the overlay's own list into the document and
  \<open>dict_pop\<close> removes its first element, so the second attempt starts from the overlay
  \<open>{'a': [2, 3]}\<close>: \<open>update\<close> returns success with the document \<open>{'a': [3]}\<close>, while the
  fresh snapshot merged with the overlays that the caller passed is \<open>{'a': [2, 3]}\<close>.
\<close>

theorem retry_merges_mutated_overlay:
  "(\<exists>st'. update fs0 lib0 (contended 1 (PDict [])) None 100
            (start [OList [VInt 1, VInt 2, VInt 3], ODict [(S ''a'', VRef 0)]])
            (S ''c'') (S ''doc'') (VRef 1) (PDict [(S ''a'', PList [PTuple [PInt 0, PNone]])])
          = Some (st', Inr (True, VRef 3, PStr (S ''t2''))) \<and>
          reify 100 (heap st') (VRef 3) = Inr (PDict [(S ''a'', PList [PInt 3])])) \<and>
   merged 100 [OList [VInt 1, VInt 2, VInt 3], ODict [(S ''a'', VRef 0)]] (PDict []) (VRef 1)
          (PDict [(S ''a'', PList [PTuple [PInt 0, PNone]])])
     = Inr (PDict [(S ''a'', PList [PInt 2, PInt 3])])"
proof -
  let ?T = "contended 1 (PDict [])"
  let ?del = "PDict [(S ''a'', PList [PTuple [PInt 0, PNone]])]"
  let ?h0 = "[OList [VInt 1, VInt 2, VInt 3], ODict [(S ''a'', VRef 0)]]"
  let ?get = "Sent (GET (REST fs0 @ S ''c'' @ S ''/'' @ S ''doc'') headers0)"
  have dec: "dict_from_firestore 100 lib0 (PDict []) = Inr (PDict [])"
    by (simp add: dict_from_firestore_numeral)
  \<comment> \<open>first attempt\<close>
  let ?st = "sleep (start ?h0) 0"
  let ?st1 = "?st\<lparr>trace := trace ?st @ [?get]\<rparr>"
  let ?h1 = "?h0 @ [ODict []]"
  let ?h2 = "[OList [VInt 1, VInt 2, VInt 3], ODict [(S ''a'', VRef 0)], ODict [(S ''a'', VRef 0)]]"
  let ?h3 = "[OList [VInt 2, VInt 3], ODict [(S ''a'', VRef 0)], ODict [(S ''a'', VRef 0)]]"
  let ?doc1 = "PDict [(S ''a'', PList [PInt 2, PInt 3])]"
  have rd: "read fs0 lib0 ?T 100 ?st (S ''c'') (S ''doc'') = (?st1, (True, PDict [], PStr (S ''t1'')))"
    by (simp add: read_contended parse_result_fields[OF dec] caught_def)
  have al: "alloc (heap ?st1) (PDict []) = (?h1, VRef 2)"
    by (simp add: sleep_def start_def)
  have rp: "dict_replace 100 ?h1 (VRef 2) (VRef 1) = Inr (?h2, False)"
    by (simp add: dict_replace_numeral)
  have pp: "dict_pop ?h2 (VRef 2) ?del = Inr (?h3, VRef 2)"
    by (simp add: sorted_desc_def num_less_def list_pop_def)
  have rf: "reify 100 ?h3 (VRef 2) = Inr ?doc1"
    by (simp add: reify_numeral)
  have sz: "dict_size 100 ?doc1 = Inr 2" by (simp add: dict_size_numeral)
  have le: "(2::nat) \<le> 19990" by simp
  obtain fs1 where e1: "dict_to_firestore 100 ?doc1 False = Inr fs1"
    by (simp add: dict_to_firestore_numeral map_value_numeral str_int_small)
  have a1: "attempt_body fs0 lib0 ?T None 100 (S ''c'') (S ''doc'') (VRef 1) ?del ?st
        = commit fs0 lib0 ?T 100 (S ''c'') (S ''doc'') (?st1\<lparr>heap := ?h3\<rparr>) (VRef 2) ?doc1 (PStr (S ''t1''))"
    by (rule attempt_commits[OF rd al rp pp rf sz le])
  obtain st2 where st2: "attempt_body fs0 lib0 ?T None 100 (S ''c'') (S ''doc'') (VRef 1) ?del ?st
        = (st2, Continue)" "heap st2 = ?h3" "net st2 = 1"
    unfolding a1 commit_contended[OF e1] by (simp add: sleep_def start_def)
  \<comment> \<open>second attempt\<close>
  let ?su = "sleep st2 0"
  let ?su1 = "?su\<lparr>trace := trace ?su @ [?get]\<rparr>"
  let ?k1 = "?h3 @ [ODict []]"
  let ?k2 = "[OList [VInt 2, VInt 3], ODict [(S ''a'', VRef 0)], ODict [(S ''a'', VRef 0)],
              ODict [(S ''a'', VRef 0)]]"
  let ?k3 = "[OList [VInt 3], ODict [(S ''a'', VRef 0)], ODict [(S ''a'', VRef 0)],
              ODict [(S ''a'', VRef 0)]]"
  let ?doc2 = "PDict [(S ''a'', PList [PInt 3])]"
  have rd': "read fs0 lib0 ?T 100 ?su (S ''c'') (S ''doc'') = (?su1, (True, PDict [], PStr (S ''t1'')))"
    by (simp add: read_contended parse_result_fields[OF dec] caught_def)
  have al': "alloc (heap ?su1) (PDict []) = (?k1, VRef 3)"
    by (simp add: sleep_def st2(2))
  have rp': "dict_replace 100 ?k1 (VRef 3) (VRef 1) = Inr (?k2, False)"
    by (simp add: dict_replace_numeral)
  have pp': "dict_pop ?k2 (VRef 3) ?del = Inr (?k3, VRef 3)"
    by (simp add: sorted_desc_def num_less_def list_pop_def)
  have rf': "reify 100 ?k3 (VRef 3) = Inr ?doc2"
    by (simp add: reify_numeral)
  have sz': "dict_size 100 ?doc2 = Inr 1" by (simp add: dict_size_numeral)
  have le': "(1::nat) \<le> 19990" by simp
  obtain fs2 where e2: "dict_to_firestore 100 ?doc2 False = Inr fs2"
    by (simp add: dict_to_firestore_numeral map_value_numeral str_int_small)
  have a2: "attempt_body fs0 lib0 ?T None 100 (S ''c'') (S ''doc'') (VRef 1) ?del ?su
        = commit fs0 lib0 ?T 100 (S ''c'') (S ''doc'') (?su1\<lparr>heap := ?k3\<rparr>) (VRef 3) ?doc2 (PStr (S ''t1''))"
    by (rule attempt_commits[OF rd' al' rp' pp' rf' sz' le'])
  obtain st3 where st3: "attempt_body fs0 lib0 ?T None 100 (S ''c'') (S ''doc'') (VRef 1) ?del ?su
        = (st3, Return (Inr (True, VRef 3, PStr (S ''t2''))))" "heap st3 = ?k3"
    unfolding a2 commit_contended[OF e2] by (simp add: sleep_def st2(3))
  have run: "update fs0 lib0 ?T None 100 (start ?h0) (S ''c'') (S ''doc'') (VRef 1) ?del
        = Some (st3, Inr (True, VRef 3, PStr (S ''t2'')))"
  proof -
    have c: "(if S ''c'' = [] then local_id fs0 else S ''c'') = S ''c''"
      "(if S ''doc'' = [] then local_id fs0 else S ''doc'') = S ''doc''" by simp_all
    show ?thesis
      unfolding update_def Let_def c
      by (subst loop_first, simp only: st2(1) prod.case step.case,
          subst loop_second, simp only: st3(1) prod.case step.case)
  qed
  have fresh: "merged 100 ?h0 (PDict []) (VRef 1) ?del = Inr ?doc1"
  proof -
    have al0: "alloc ?h0 (PDict []) = (?h1, VRef 2)" by simp
    show ?thesis
      unfolding merged_def
      by (simp only: al0 prod.case rp pp rf ebind_def sum.case)
  qed
  show ?thesis using run rf' st3(2) fresh by simp
qed

end
